theory Spec2Isabelle
  imports Complex_Main
begin

section \<open>Smart File Organizer: the sorter module\<close>

text \<open>
  A shallow embedding of \<^verbatim>\<open>sorter.py\<close>. Python integers are \<open>int\<close>, strings are
  \<open>string\<close>, \<^verbatim>\<open>Optional[str]\<close> is \<open>string option\<close>. Exceptions are values of sum
  types, and the filesystem, the log and the trace of classifier calls are an explicit
  state that every effectful function takes and returns.
\<close>

subsection \<open>Dates and the week of the month\<close>

text \<open>The three fields of \<^verbatim>\<open>datetime\<close> that the module reads.\<close>

record datetime =
  year :: int
  month :: int
  day :: int

text \<open>
  \<^verbatim>\<open>day_of_month = date.day; week_of_month = (day_of_month - 1) // 7 + 1;
  return min(week_of_month, 5)\<close>. Python's \<^verbatim>\<open>//\<close> is floor division, as \<open>div\<close> on \<open>int\<close>.
\<close>

definition get_week_of_month :: "datetime \<Rightarrow> int" where
  "get_week_of_month date =
     (let day_of_month = day date;
          week_of_month = (day_of_month - 1) div 7 + 1
      in min week_of_month 5)"

subsection \<open>Labels and directory names\<close>

definition DOCUMENT_TYPES :: "string list" where
  "DOCUMENT_TYPES = [''Invoices'', ''Protocols'', ''Reports'']"

definition CANDIDATE_LABELS :: "string list" where
  "CANDIDATE_LABELS = [''Invoice'', ''Protocol'', ''Report'']"

text \<open>The dictionary \<^verbatim>\<open>LABEL_TO_DIR\<close>, as a finite map.\<close>

definition LABEL_TO_DIR :: "string \<rightharpoonup> string" where
  "LABEL_TO_DIR = map_of
     [(''Invoice'', ''Invoices''),
      (''Protocol'', ''Protocols''),
      (''Report'', ''Reports'')]"

text \<open>\<^verbatim>\<open>dir_name = LABEL_TO_DIR.get(doc_type, doc_type + "s")\<close> (line 166).\<close>

definition dir_name_of :: "string \<Rightarrow> string" where
  "dir_name_of doc_type =
     (case LABEL_TO_DIR doc_type of Some d \<Rightarrow> d | None \<Rightarrow> doc_type @ ''s'')"


subsection \<open>Strings: \<^verbatim>\<open>str\<close> on integers, prefixes and suffixes\<close>

definition digit_char :: "nat \<Rightarrow> char" where
  "digit_char n = ''0123456789'' ! (n mod 10)"

text \<open>The decimal digits of a natural number, most significant first.\<close>

fun str_nat :: "nat \<Rightarrow> string" where
  "str_nat n =
     (if n < 10 then [digit_char n] else str_nat (n div 10) @ [digit_char (n mod 10)])"

declare str_nat.simps [simp del]

text \<open>
  Python's \<^verbatim>\<open>str(i)\<close> on an \<^verbatim>\<open>int\<close>, which is also what \<^verbatim>\<open>f"{i}"\<close> inserts: a minus
  sign for a negative number, then the decimal digits.
\<close>

definition str_int :: "int \<Rightarrow> string" where
  "str_int i = (if i < 0 then CHR ''-'' # str_nat (nat (- i)) else str_nat (nat i))"

definition startswith :: "string \<Rightarrow> string \<Rightarrow> bool" where
  "startswith s pre = (take (length pre) s = pre)"

definition endswith :: "string \<Rightarrow> string \<Rightarrow> bool" where
  "endswith s suf = (length suf \<le> length s \<and> drop (length s - length suf) s = suf)"

text \<open>
  \<^verbatim>\<open>s.rfind(c)\<close> for a one-character \<^verbatim>\<open>c\<close>: the index of its last occurrence, or -1.
\<close>

definition rfind :: "string \<Rightarrow> char \<Rightarrow> int" where
  "rfind s c =
     (if c \<in> set s
      then int (length s) - 1 - int (length (takeWhile (\<lambda>x. x \<noteq> c) (rev s)))
      else - 1)"

text \<open>
  \<^verbatim>\<open>str.isspace\<close> and \<^verbatim>\<open>s.strip()\<close>, which removes white space from both ends. A
  \<open>char\<close> stands for a code point below 256; the white space among these is U+0009 to
  U+000D, U+001C to U+0020, U+0085 and U+00A0. (Code points from 256 on are not
  characters of the model.)
\<close>

definition isspace :: "char \<Rightarrow> bool" where
  "isspace c = (c \<in> set [CHR 0x09, CHR 0x0A, CHR 0x0B, CHR 0x0C, CHR 0x0D,
                          CHR 0x1C, CHR 0x1D, CHR 0x1E, CHR 0x1F, CHR 0x20,
                          CHR 0x85, CHR 0xA0])"

definition strip :: "string \<Rightarrow> string" where
  "strip s = rev (dropWhile isspace (rev (dropWhile isspace s)))"

subsection \<open>Paths, as \<^verbatim>\<open>posixpath\<close> computes them\<close>

text \<open>
  One step of \<^verbatim>\<open>os.path.join\<close>: a component that starts with the separator replaces
  what was joined so far; otherwise it is appended, after a separator unless the path
  is empty or already ends with one.
\<close>

definition join_step :: "string \<Rightarrow> string \<Rightarrow> string" where
  "join_step path b =
     (if startswith b ''/'' then b
      else if path = [] \<or> endswith path ''/'' then path @ b
      else path @ ''/'' @ b)"

definition os_path_join :: "string \<Rightarrow> string list \<Rightarrow> string" where
  "os_path_join a p = foldl join_step a p"

text \<open>\<^verbatim>\<open>os.path.basename(p)\<close>: what follows the last separator.\<close>

definition os_path_basename :: "string \<Rightarrow> string" where
  "os_path_basename p = drop (nat (rfind p (CHR ''/'') + 1)) p"

text \<open>
  \<^verbatim>\<open>os.path.splitext(p)\<close>: the extension starts at the last dot, when that dot comes
  after the last separator and some character of the file name before it is not a dot;
  otherwise the extension is empty.
\<close>

definition os_path_splitext :: "string \<Rightarrow> string \<times> string" where
  "os_path_splitext p =
     (let sepIndex = rfind p (CHR ''/'');
          dotIndex = rfind p (CHR ''.'')
      in if dotIndex > sepIndex \<and>
            list_ex (\<lambda>c. c \<noteq> CHR ''.'')
              (take (nat (dotIndex - (sepIndex + 1))) (drop (nat (sepIndex + 1)) p))
         then (take (nat dotIndex) p, drop (nat dotIndex) p)
         else (p, []))"

subsection \<open>Exceptions, the log and the world\<close>

text \<open>
  The exceptions the module meets: \<^verbatim>\<open>OSError\<close> and its subclasses, what
  \<^verbatim>\<open>shutil.move\<close> raises, what opening a PDF raises, and any other \<^verbatim>\<open>Exception\<close>,
  named by its class. (\<^verbatim>\<open>BaseException\<close>s that are no \<^verbatim>\<open>Exception\<close>, such as a
  keyboard interrupt, end the process and are not modelled.)
\<close>

datatype os_error =
  FileExistsError | FileNotFoundError | NotADirectoryError | PermissionError | OtherOSError int

datatype move_error = MoveOSError os_error | ShutilError string

datatype py_exception = PyException string

datatype pdf_error = PdfFileNotFound | PdfError py_exception

datatype log_level = DEBUG | INFO | WARNING | ERROR

datatype log_arg =
  ArgStr string | ArgInt int | ArgOSError os_error | ArgMoveError move_error
  | ArgException py_exception

type_synonym log_entry = "log_level \<times> string \<times> log_arg list"

text \<open>
  The world the module acts on: the regular files and the directories that exist (by
  path), the records the logger has emitted, and the calls made to the classifier (text
  and candidate labels), in order.
\<close>

record world =
  files :: "string list"
  dirs :: "string list"
  log_records :: "log_entry list"
  clf_calls :: "(string \<times> string list) list"

text \<open>What the classifier returns: \<^verbatim>\<open>result['labels']\<close> and \<^verbatim>\<open>result['scores']\<close>.\<close>

record clf_result =
  labels :: "string list"
  scores :: "real list"

text \<open>A page of an opened PDF: \<^verbatim>\<open>extract_text()\<close> raises, or returns \<^verbatim>\<open>None\<close> or text.\<close>

type_synonym page = "py_exception + string option"

text \<open>
  What the module does not decide: which directory creations, moves and listings the
  operating system refuses (beyond what the world's state forces), what a PDF holds,
  what the classifier answers, and what \<^verbatim>\<open>datetime.now()\<close> reads while a given file is
  handled.
\<close>

record env =
  mkdir_fault :: "string \<Rightarrow> os_error option"
  move_fault :: "string \<Rightarrow> string \<Rightarrow> move_error option"
  listdir_fault :: "string \<Rightarrow> os_error option"
  pdf_pages :: "string \<Rightarrow> pdf_error + page list"
  classifier :: "string \<Rightarrow> string list \<Rightarrow> py_exception + clf_result"
  now :: "string \<Rightarrow> datetime"

text \<open>The module's constants \<^verbatim>\<open>INPUT_DIR\<close>, \<^verbatim>\<open>OUTPUT_DIR\<close>, \<^verbatim>\<open>CHECK_INTERVAL\<close>, read from the
  environment when the module is loaded.\<close>

record config =
  INPUT_DIR :: string
  OUTPUT_DIR :: string
  CHECK_INTERVAL :: int

definition default_config :: config where
  "default_config =
     \<lparr>INPUT_DIR = ''./incoming_documents'', OUTPUT_DIR = ''./sorted_documents'',
      CHECK_INTERVAL = 30\<rparr>"

text \<open>
  The logger is configured at level \<^verbatim>\<open>INFO\<close>: a \<^verbatim>\<open>debug\<close> call emits nothing, every
  other call appends a record (level, format string, arguments).
\<close>

definition logger :: "log_level \<Rightarrow> string \<Rightarrow> log_arg list \<Rightarrow> world \<Rightarrow> world" where
  "logger lvl msg args w =
     (if lvl = DEBUG then w else w\<lparr>log_records := log_records w @ [(lvl, msg, args)]\<rparr>)"

subsection \<open>The filesystem calls\<close>

definition os_path_exists :: "world \<Rightarrow> string \<Rightarrow> bool" where
  "os_path_exists w p = (p \<in> set (files w) \<or> p \<in> set (dirs w))"

text \<open>The directories above a path: its prefixes that end just before a separator.\<close>

definition ancestors :: "string \<Rightarrow> string list" where
  "ancestors p = map (\<lambda>i. take i p) (filter (\<lambda>i. p ! i = CHR ''/'') [1..<length p])"

text \<open>
  \<^verbatim>\<open>os.makedirs(p, exist_ok=True)\<close>: nothing to do when the directory exists; an error
  when the path or a directory above it is a regular file, or when the system refuses;
  otherwise the directory and the missing ones above it exist afterwards. A call that
  fails is modelled as creating nothing.
\<close>

definition os_makedirs :: "env \<Rightarrow> world \<Rightarrow> string \<Rightarrow> os_error + world" where
  "os_makedirs e w p =
     (if p = [] then Inl FileNotFoundError
      else if p \<in> set (dirs w) then Inr w
      else if p \<in> set (files w) then Inl FileExistsError
      else if list_ex (\<lambda>a. a \<in> set (files w)) (ancestors p) then Inl NotADirectoryError
      else case mkdir_fault e p of
             Some err \<Rightarrow> Inl err
           | None \<Rightarrow> Inr (w\<lparr>dirs := foldr List.insert (ancestors p @ [p]) (dirs w)\<rparr>))"

text \<open>Where a path lands when \<open>src\<close> is renamed to \<open>dst\<close>: \<open>src\<close> itself and what lies
  below it move, every other path stays.\<close>

definition relocate :: "string \<Rightarrow> string \<Rightarrow> string \<Rightarrow> string" where
  "relocate src dst p =
     (if p = src then dst
      else if startswith p (src @ ''/'') then dst @ drop (length src) p
      else p)"

text \<open>
  \<^verbatim>\<open>shutil.move(src, dst)\<close>: into \<open>dst\<close> when it is a directory (an error when the name
  is taken there), onto \<open>dst\<close> otherwise, replacing a regular file of that name.
\<close>

definition shutil_move :: "env \<Rightarrow> world \<Rightarrow> string \<Rightarrow> string \<Rightarrow> move_error + world" where
  "shutil_move e w src dst =
     (let real_dst =
            (if dst \<in> set (dirs w) then os_path_join dst [os_path_basename src] else dst)
      in if dst \<in> set (dirs w) \<and> os_path_exists w real_dst
         then Inl (ShutilError ''Destination path already exists'')
         else if \<not> os_path_exists w src then Inl (MoveOSError FileNotFoundError)
         else case move_fault e src real_dst of
                Some err \<Rightarrow> Inl err
              | None \<Rightarrow>
                  Inr (w\<lparr>files := map (relocate src real_dst)
                                    (filter (\<lambda>p. p \<noteq> real_dst) (files w)),
                         dirs := map (relocate src real_dst) (dirs w)\<rparr>))"

text \<open>The name of \<open>p\<close> inside directory \<open>d\<close>, when \<open>p\<close> lies directly in \<open>d\<close>.\<close>

definition child_name :: "string \<Rightarrow> string \<Rightarrow> string option" where
  "child_name d p =
     (let d' = (if d = [] \<or> endswith d ''/'' then d else d @ ''/'');
          name = drop (length d') p
      in if startswith p d' \<and> name \<noteq> [] \<and> CHR ''/'' \<notin> set name then Some name else None)"

text \<open>\<^verbatim>\<open>os.listdir(d)\<close>: the names directly in \<open>d\<close>, or an \<^verbatim>\<open>OSError\<close>.\<close>

definition os_listdir :: "env \<Rightarrow> world \<Rightarrow> string \<Rightarrow> os_error + string list" where
  "os_listdir e w d =
     (if d \<in> set (files w) then Inl NotADirectoryError
      else if d \<notin> set (dirs w) then Inl FileNotFoundError
      else case listdir_fault e d of
             Some err \<Rightarrow> Inl err
           | None \<Rightarrow> Inr (remdups (List.map_filter (child_name d) (files w @ dirs w))))"

text \<open>\<^verbatim>\<open>pdfplumber.open(p)\<close>, up to the list of its pages.\<close>

definition pdfplumber_open :: "env \<Rightarrow> world \<Rightarrow> string \<Rightarrow> pdf_error + page list" where
  "pdfplumber_open e w p =
     (if p \<in> set (dirs w) then Inl (PdfError (PyException ''IsADirectoryError''))
      else if p \<notin> set (files w) then Inl PdfFileNotFound
      else pdf_pages e p)"

subsection \<open>Text extraction and classification\<close>

text \<open>
  The loop over \<^verbatim>\<open>pdf.pages\<close>: \<^verbatim>\<open>page_text = page.extract_text()\<close>, appended to
  \<^verbatim>\<open>text\<close> when it is truthy (neither \<^verbatim>\<open>None\<close> nor empty). An exception leaves the loop.
\<close>

fun read_pages :: "page list \<Rightarrow> string \<Rightarrow> py_exception + string" where
  "read_pages [] text = Inr text"
| "read_pages (pg # pgs) text =
     (case pg of
        Inl ex \<Rightarrow> Inl ex
      | Inr page_text \<Rightarrow>
          (case page_text of
             None \<Rightarrow> read_pages pgs text
           | Some t \<Rightarrow> if t \<noteq> [] then read_pages pgs (text @ t) else read_pages pgs text))"

definition extract_text_from_pdf :: "env \<Rightarrow> world \<Rightarrow> string \<Rightarrow> string \<times> world" where
  "extract_text_from_pdf e w file_path =
     (case pdfplumber_open e w file_path of
        Inl PdfFileNotFound \<Rightarrow>
          ([], logger ERROR ''File not found: %s'' [ArgStr file_path] w)
      | Inl (PdfError ex) \<Rightarrow>
          ([], logger ERROR ''Error extracting text from %s: %s''
                 [ArgStr file_path, ArgException ex] w)
      | Inr pages \<Rightarrow>
          (case read_pages pages [] of
             Inl ex \<Rightarrow>
               ([], logger ERROR ''Error extracting text from %s: %s''
                      [ArgStr file_path, ArgException ex] w)
           | Inr text \<Rightarrow> (strip text, w)))"

text \<open>
  \<^verbatim>\<open>classify_document\<close>. Inside the \<^verbatim>\<open>try\<close>, the classifier is called, then
  \<^verbatim>\<open>result['labels'][0]\<close> and \<^verbatim>\<open>result['scores'][0]\<close> are read: each raises
  \<^verbatim>\<open>IndexError\<close> on an empty list, and \<^verbatim>\<open>except Exception\<close> turns every exception into
  \<^verbatim>\<open>None\<close>. The \<^verbatim>\<open>debug\<close> record is below the logger's level.
\<close>

definition classify_document :: "env \<Rightarrow> world \<Rightarrow> string \<Rightarrow> string option \<times> world" where
  "classify_document e w file_path =
     (case extract_text_from_pdf e w file_path of
        (text, w1) \<Rightarrow>
          if text = []
          then (None, logger WARNING ''No text extracted from %s. Skipping classification.''
                        [ArgStr file_path] w1)
          else
            (let w2 = w1\<lparr>clf_calls := clf_calls w1 @ [(text, CANDIDATE_LABELS)]\<rparr>;
                 failed = (\<lambda>ex. (None, logger ERROR ''Classification failed for %s: %s''
                                           [ArgStr file_path, ArgException ex] w2))
             in case classifier e text CANDIDATE_LABELS of
                  Inl ex \<Rightarrow> failed ex
                | Inr result \<Rightarrow>
                    (case labels result of
                       [] \<Rightarrow> failed (PyException ''IndexError'')
                     | doc_type # _ \<Rightarrow>
                         (case scores result of
                            [] \<Rightarrow> failed (PyException ''IndexError'')
                          | confidence # _ \<Rightarrow>
                              (Some doc_type,
                               logger DEBUG ''Classified %s as %s with confidence %.2f''
                                 [ArgStr file_path, ArgStr doc_type] w2)))))"

subsection \<open>Moving a file\<close>

text \<open>
  Lines 166-173 of \<^verbatim>\<open>move_file_to_correct_directory\<close>: the directory a document of a
  given label and date goes to.
\<close>

definition target_directory :: "config \<Rightarrow> string \<Rightarrow> datetime \<Rightarrow> string" where
  "target_directory cfg doc_type document_date =
     (let dir_name = dir_name_of doc_type;
          week_of_month = get_week_of_month document_date
      in os_path_join (OUTPUT_DIR cfg)
           [dir_name, str_int (year document_date),
            ''Month_'' @ str_int (month document_date),
            ''Week_'' @ str_int week_of_month])"

text \<open>The name probed by the renaming loop: \<^verbatim>\<open>f"{base_name}_{counter}{ext}"\<close>.\<close>

definition candidate :: "string \<Rightarrow> string \<Rightarrow> int \<Rightarrow> string" where
  "candidate base_name ext counter = base_name @ ''_'' @ str_int counter @ ext"

text \<open>
  The loop \<^verbatim>\<open>while os.path.exists(f"{base_name}_{counter}{ext}"): counter += 1\<close>. It
  ends because the world holds finitely many paths and different counters give
  different names; the lemmas below are its termination argument.
\<close>

lemma digit_char_inj: "n < 10 \<Longrightarrow> m < 10 \<Longrightarrow> digit_char n = digit_char m \<Longrightarrow> n = m"
proof -
  assume "n < 10" "m < 10" "digit_char n = digit_char m"
  have d: "distinct ''0123456789''" by simp
  have "length ''0123456789'' = 10" by simp
  with \<open>n < 10\<close> \<open>m < 10\<close> \<open>digit_char n = digit_char m\<close> d show "n = m"
    unfolding digit_char_def by (metis mod_less nth_eq_iff_index_eq)
qed

lemma digit_char_not_minus: "digit_char n \<noteq> CHR ''-''"
proof -
  have "n mod 10 < length ''0123456789''" by simp
  then have "''0123456789'' ! (n mod 10) \<in> set ''0123456789''" by (rule nth_mem)
  then show ?thesis unfolding digit_char_def by auto
qed

lemma str_nat_nonempty: "str_nat n \<noteq> []"
  by (subst str_nat.simps) simp

lemma str_nat_inj: "str_nat n = str_nat m \<Longrightarrow> n = m"
proof (induction n arbitrary: m rule: str_nat.induct)
  case (1 n)
  show ?case
  proof (cases "n < 10")
    case True
    then have n: "str_nat n = [digit_char n]" by (subst str_nat.simps) simp
    show ?thesis
    proof (cases "m < 10")
      case mt: True
      then have "str_nat m = [digit_char m]" by (subst str_nat.simps) simp
      with n "1.prems" True mt show ?thesis by (simp add: digit_char_inj)
    next
      case False
      then have "str_nat m = str_nat (m div 10) @ [digit_char (m mod 10)]"
        by (subst str_nat.simps) simp
      with n "1.prems" str_nat_nonempty [of "m div 10"] show ?thesis by simp
    qed
  next
    case False
    then have n: "str_nat n = str_nat (n div 10) @ [digit_char (n mod 10)]"
      by (subst str_nat.simps) simp
    show ?thesis
    proof (cases "m < 10")
      case True
      then have "str_nat m = [digit_char m]" by (subst str_nat.simps) simp
      with n "1.prems" str_nat_nonempty [of "n div 10"] show ?thesis by simp
    next
      case mf: False
      then have "str_nat m = str_nat (m div 10) @ [digit_char (m mod 10)]"
        by (subst str_nat.simps) simp
      with n "1.prems" have e: "str_nat (n div 10) = str_nat (m div 10)"
        and d: "digit_char (n mod 10) = digit_char (m mod 10)" by simp_all
      from "1.IH" [OF False e] have "n div 10 = m div 10" .
      moreover from d have "n mod 10 = m mod 10" by (simp add: digit_char_inj)
      ultimately show ?thesis by (metis div_mult_mod_eq)
    qed
  qed
qed

lemma str_nat_hd: "hd (str_nat n) \<noteq> CHR ''-''"
proof (induction n rule: str_nat.induct)
  case (1 n)
  show ?case
  proof (cases "n < 10")
    case True
    then have "str_nat n = [digit_char n]" by (subst str_nat.simps) simp
    then show ?thesis by (simp add: digit_char_not_minus)
  next
    case False
    then have "str_nat n = str_nat (n div 10) @ [digit_char (n mod 10)]"
      by (subst str_nat.simps) simp
    with "1.IH" [OF False] str_nat_nonempty [of "n div 10"] show ?thesis by simp
  qed
qed

lemma str_int_inj: "str_int i = str_int j \<Longrightarrow> i = j"
proof -
  assume e: "str_int i = str_int j"
  have neg: "\<And>a b. a < 0 \<Longrightarrow> \<not> b < 0 \<Longrightarrow> str_int a \<noteq> str_int b"
  proof
    fix a b :: int assume "a < 0" "\<not> b < 0" "str_int a = str_int b"
    then have "hd (str_nat (nat b)) = CHR ''-''" by (simp add: str_int_def) (metis list.sel(1))
    with str_nat_hd show False by blast
  qed
  show "i = j"
  proof (cases "i < 0")
    case True
    show ?thesis
    proof (cases "j < 0")
      case jt: True
      with True e have "str_nat (nat (- i)) = str_nat (nat (- j))" by (simp add: str_int_def)
      then have "nat (- i) = nat (- j)" by (rule str_nat_inj)
      with True jt show ?thesis by simp
    next
      case False
      with True e neg show ?thesis by blast
    qed
  next
    case False
    show ?thesis
    proof (cases "j < 0")
      case True
      with False e neg [of j i] show ?thesis by simp
    next
      case jf: False
      with False e have "str_nat (nat i) = str_nat (nat j)" by (simp add: str_int_def)
      then have "nat i = nat j" by (rule str_nat_inj)
      with False jf show ?thesis by simp
    qed
  qed
qed

lemma candidate_inj: "candidate b x i = candidate b x j \<Longrightarrow> i = j"
  by (simp add: candidate_def str_int_inj)


text \<open>The existing paths that are candidates for a counter from \<open>c\<close> on.\<close>

definition taken_from :: "world \<Rightarrow> string \<Rightarrow> string \<Rightarrow> int \<Rightarrow> string set" where
  "taken_from w b x c = {p \<in> set (files w) \<union> set (dirs w). \<exists>k\<ge>c. p = candidate b x k}"

lemma taken_from_decreases:
  assumes "os_path_exists w (candidate b x c)"
  shows "card (taken_from w b x (c + 1)) < card (taken_from w b x c)"
proof (rule psubset_card_mono)
  show "finite (taken_from w b x c)" by (simp add: taken_from_def)
  have "candidate b x c \<in> taken_from w b x c"
    using assms by (auto simp: taken_from_def os_path_exists_def)
  moreover have "candidate b x c \<notin> taken_from w b x (c + 1)"
    by (auto simp: taken_from_def dest: candidate_inj)
  moreover have "taken_from w b x (c + 1) \<subseteq> taken_from w b x c"
  proof
    fix p assume "p \<in> taken_from w b x (c + 1)"
    then obtain k where k: "c + 1 \<le> k" "p = candidate b x k"
      and p: "p \<in> set (files w) \<union> set (dirs w)"
      by (auto simp: taken_from_def)
    from k have "c \<le> k" by simp
    with k p show "p \<in> taken_from w b x c" unfolding taken_from_def by blast
  qed
  ultimately show "taken_from w b x (c + 1) \<subset> taken_from w b x c" by blast
qed

function find_counter :: "world \<Rightarrow> string \<Rightarrow> string \<Rightarrow> int \<Rightarrow> int" where
  "find_counter w base_name ext counter =
     (if os_path_exists w (candidate base_name ext counter)
      then find_counter w base_name ext (counter + 1)
      else counter)"
  by pat_completeness auto
termination
  by (relation "measure (\<lambda>(w, b, x, c). card (taken_from w b x c))")
     (simp_all add: taken_from_decreases)

declare find_counter.simps [simp del]

text \<open>
  Lines 184-190: the path the file is moved to. An unused target is kept; a used one is
  split by \<^verbatim>\<open>os.path.splitext\<close> and gets the first counter from 1 whose name is unused.
\<close>

definition unique_target :: "world \<Rightarrow> string \<Rightarrow> string" where
  "unique_target w target_file_path =
     (if os_path_exists w target_file_path
      then (case os_path_splitext target_file_path of
              (base_name, ext) \<Rightarrow> candidate base_name ext (find_counter w base_name ext 1))
      else target_file_path)"

text \<open>
  \<^verbatim>\<open>move_file_to_correct_directory\<close>. Its result is \<^verbatim>\<open>Optional[str]\<close>; the world it
  leaves is returned beside it.
\<close>

definition move_file_to_correct_directory ::
  "config \<Rightarrow> env \<Rightarrow> world \<Rightarrow> string \<Rightarrow> string option \<Rightarrow> datetime \<Rightarrow> string option \<times> world"
where
  "move_file_to_correct_directory cfg e w file_path doc_type document_date =
     (case doc_type of
        None \<Rightarrow> (None, w)
      | Some label \<Rightarrow>
          (let target_dir = target_directory cfg label document_date
           in case os_makedirs e w target_dir of
                Inl err \<Rightarrow>
                  (None, logger ERROR ''Failed to create directory %s: %s''
                           [ArgStr target_dir, ArgOSError err] w)
              | Inr w1 \<Rightarrow>
                  (let target_file_path = os_path_join target_dir [os_path_basename file_path];
                       w2 = (if os_path_exists w1 target_file_path
                             then logger INFO ''Found duplicate file: %s. Renaming.''
                                    [ArgStr target_file_path] w1
                             else w1);
                       final_path = unique_target w1 target_file_path
                   in case shutil_move e w2 file_path final_path of
                        Inr w3 \<Rightarrow>
                          (Some final_path,
                           logger INFO ''Moved %s to %s'' [ArgStr file_path, ArgStr final_path] w3)
                      | Inl err \<Rightarrow>
                          (None, logger ERROR ''Failed to move file %s: %s''
                                   [ArgStr file_path, ArgMoveError err] w2))))"

subsection \<open>One polling cycle\<close>

text \<open>Python's truth value of an \<^verbatim>\<open>Optional[str]\<close>, as \<^verbatim>\<open>if result:\<close> tests it.\<close>

definition truthy :: "string option \<Rightarrow> bool" where
  "truthy r = (case r of None \<Rightarrow> False | Some s \<Rightarrow> s \<noteq> [])"

text \<open>
  The body of the loop of \<^verbatim>\<open>process_files\<close> for one file name, on the counter
  \<^verbatim>\<open>processed\<close> and the world. (The console line that \<^verbatim>\<open>display_sorting_progress\<close>
  prints is not part of the world.)
\<close>

definition process_file :: "config \<Rightarrow> env \<Rightarrow> string \<Rightarrow> int \<Rightarrow> world \<Rightarrow> int \<times> world" where
  "process_file cfg e file_name processed w =
     (let file_path = os_path_join (INPUT_DIR cfg) [file_name]
      in case classify_document e w file_path of
           (None, w1) \<Rightarrow> (processed, w1)
         | (Some doc_type, w1) \<Rightarrow>
             (let w2 = logger INFO ''Document %s classified as: %s''
                         [ArgStr file_name, ArgStr doc_type] w1
              in case move_file_to_correct_directory cfg e w2 file_path (Some doc_type)
                        (now e file_path) of
                   (result, w3) \<Rightarrow> (if truthy result then processed + 1 else processed, w3)))"

fun process_loop :: "config \<Rightarrow> env \<Rightarrow> string list \<Rightarrow> int \<Rightarrow> world \<Rightarrow> int \<times> world" where
  "process_loop cfg e [] processed w = (processed, w)"
| "process_loop cfg e (file_name # rest) processed w =
     (case process_file cfg e file_name processed w of
        (processed', w') \<Rightarrow> process_loop cfg e rest processed' w')"

definition process_files :: "config \<Rightarrow> env \<Rightarrow> world \<Rightarrow> int \<times> world" where
  "process_files cfg e w =
     (case os_listdir e w (INPUT_DIR cfg) of
        Inl err \<Rightarrow> (0, logger ERROR ''Failed to list input directory: %s'' [ArgOSError err] w)
      | Inr names \<Rightarrow>
          (let pdfs = filter (\<lambda>f. endswith f ''.pdf'') names
           in if pdfs = []
              then (0, logger INFO ''No PDF files to sort. Checking again in %d seconds.''
                         [ArgInt (CHECK_INTERVAL cfg)] w)
              else process_loop cfg e pdfs 0 w))"

subsection \<open>Start-up\<close>

text \<open>A \<^verbatim>\<open>for\<close> loop whose body may raise: the first exception ends it.\<close>

fun for_each :: "'a list \<Rightarrow> ('a \<Rightarrow> world \<Rightarrow> os_error + world) \<Rightarrow> world \<Rightarrow> os_error + world" where
  "for_each [] body w = Inr w"
| "for_each (x # xs) body w =
     (case body x w of Inl err \<Rightarrow> Inl err | Inr w' \<Rightarrow> for_each xs body w')"

text \<open>The path built in the innermost loop of \<^verbatim>\<open>setup_directory_structure\<close>.\<close>

definition tree_path :: "config \<Rightarrow> string \<Rightarrow> int \<Rightarrow> int \<Rightarrow> int \<Rightarrow> string" where
  "tree_path cfg doc_type yr mth week =
     os_path_join (OUTPUT_DIR cfg)
       [doc_type, str_int yr, ''Month_'' @ str_int mth, ''Week_'' @ str_int week]"

text \<open>
  \<^verbatim>\<open>setup_directory_structure\<close>: \<^verbatim>\<open>range(2020, 2031)\<close>, \<^verbatim>\<open>range(1, 13)\<close> and
  \<^verbatim>\<open>range(1, 6)\<close> are the lists \<open>[2020..2030]\<close>, \<open>[1..12]\<close> and \<open>[1..5]\<close>. No
  \<^verbatim>\<open>OSError\<close> is caught here: it leaves the function.
\<close>

definition setup_directory_structure :: "config \<Rightarrow> env \<Rightarrow> world \<Rightarrow> os_error + world" where
  "setup_directory_structure cfg e w =
     (case for_each DOCUMENT_TYPES (\<lambda>doc_type.
             for_each [2020..2030] (\<lambda>yr.
               for_each [1..12] (\<lambda>mth.
                 for_each [1..5] (\<lambda>week w'.
                   os_makedirs e w' (tree_path cfg doc_type yr mth week))))) w of
        Inl err \<Rightarrow> Inl err
      | Inr w1 \<Rightarrow>
          (case os_makedirs e w1 (INPUT_DIR cfg) of
             Inl err \<Rightarrow> Inl err
           | Inr w2 \<Rightarrow> Inr (logger INFO ''Directory structure initialized'' [] w2)))"

subsection \<open>Example worlds\<close>

text \<open>An environment in which nothing fails, and a world given by its files and directories;
  the closed instances of the theorems below are stated on them.\<close>

definition quiet_env :: env where
  "quiet_env =
     \<lparr>mkdir_fault = (\<lambda>_. None), move_fault = (\<lambda>_ _. None), listdir_fault = (\<lambda>_. None),
      pdf_pages = (\<lambda>_. Inr [Inr (Some ''invoice text'')]),
      classifier = (\<lambda>_ _. Inr \<lparr>labels = [''Invoice'', ''Protocol'', ''Report''],
                                scores = [0.9, 0.05, 0.05]\<rparr>),
      now = (\<lambda>_. \<lparr>year = 2024, month = 6, day = 15\<rparr>)\<rparr>"

definition world_of :: "string list \<Rightarrow> string list \<Rightarrow> world" where
  "world_of fs ds = \<lparr>files = fs, dirs = ds, log_records = [], clf_calls = []\<rparr>"

text \<open>A classifier that raises, and one whose answer has no scores.\<close>

definition raising_env :: env where
  "raising_env = quiet_env\<lparr>classifier := (\<lambda>_ _. Inl (PyException ''Model error''))\<rparr>"

definition scoreless_env :: env where
  "scoreless_env =
     quiet_env\<lparr>classifier :=
       (\<lambda>_ _. Inr \<lparr>labels = [''Invoice'', ''Protocol'', ''Report''], scores = []\<rparr>)\<rparr>"

text \<open>Environments that refuse to create directories or to move files, an input
  directory with two documents, and a date in the third week of June 2024.\<close>

definition denied_env :: env where
  "denied_env = quiet_env\<lparr>mkdir_fault := (\<lambda>_. Some PermissionError)\<rparr>"

definition full_env :: env where
  "full_env = quiet_env\<lparr>mkdir_fault := (\<lambda>_. Some (OtherOSError 28))\<rparr>"

definition stuck_env :: env where
  "stuck_env = quiet_env\<lparr>move_fault := (\<lambda>_ _. Some (MoveOSError PermissionError))\<rparr>"

definition inbox :: world where
  "inbox = world_of [''./incoming_documents/a.pdf'', ''./incoming_documents/b.pdf'']
                    [''./incoming_documents'']"

definition mid_june :: datetime where
  "mid_june = \<lparr>year = 2024, month = 6, day = 15\<rparr>"

subsection \<open>Auxiliary notions\<close>

text \<open>A later world has every directory of an earlier one and the same files.\<close>

definition grows :: "world \<Rightarrow> world \<Rightarrow> bool" where
  "grows w w' = (set (dirs w) \<subseteq> set (dirs w') \<and> files w' = files w)"

section \<open>Properties\<close>

text \<open>
  C1. For every date whose day of the month \<open>d\<close> lies in 1..31, \<open>get_week_of_month\<close>
  returns \<open>min(ceil(d/7), 5)\<close>: days 1-7 give week 1, 8-14 week 2, 15-21 week 3, 22-28
  week 4 and 29-31 week 5.
\<close>

theorem get_week_of_month_ceiling:
  assumes "1 \<le> day date" and "day date \<le> 31"
  shows "get_week_of_month date = min \<lceil>real_of_int (day date) / 7\<rceil> 5 \<and>
         get_week_of_month date =
           (if day date \<le> 7 then 1 else if day date \<le> 14 then 2
            else if day date \<le> 21 then 3 else if day date \<le> 28 then 4 else 5)"
proof -
  have "\<lceil>real_of_int (day date) / 7\<rceil> = - ((- day date) div 7)"
    using ceiling_divide_eq_div [of "day date" 7] by simp
  then have c: "\<lceil>real_of_int (day date) / 7\<rceil> = (day date - 1) div 7 + 1"
    by linarith
  have a: "get_week_of_month date = min \<lceil>real_of_int (day date) / 7\<rceil> 5"
    by (simp add: get_week_of_month_def c)
  have b: "get_week_of_month date =
           (if day date \<le> 7 then 1 else if day date \<le> 14 then 2
            else if day date \<le> 21 then 3 else if day date \<le> 28 then 4 else 5)"
    using assms by (simp add: get_week_of_month_def) linarith
  from a b show ?thesis by (rule conjI)
qed

theorem get_week_of_month_ceiling_witness:
  "get_week_of_month \<lparr>year = 2024, month = 1, day = 29\<rparr> = min \<lceil>29 / 7 :: real\<rceil> 5 \<and>
   get_week_of_month \<lparr>year = 2024, month = 1, day = 29\<rparr> = 5"
  using get_week_of_month_ceiling [of "\<lparr>year = 2024, month = 1, day = 29\<rparr>"] by simp

subsection \<open>Auxiliary facts\<close>

lemma find_counter_ge: "c \<le> find_counter w b x c"
proof (induction w b x c rule: find_counter.induct)
  case (1 w b x c)
  show ?case
  proof (cases "os_path_exists w (candidate b x c)")
    case True
    with "1.IH" show ?thesis by (subst find_counter.simps) simp
  next
    case False
    then show ?thesis by (subst find_counter.simps) simp
  qed
qed

lemma find_counter_free: "\<not> os_path_exists w (candidate b x (find_counter w b x c))"
proof (induction w b x c rule: find_counter.induct)
  case (1 w b x c)
  show ?case
  proof (cases "os_path_exists w (candidate b x c)")
    case True
    with "1.IH" show ?thesis by (subst find_counter.simps) simp
  next
    case False
    then show ?thesis by (subst find_counter.simps) simp
  qed
qed

lemma find_counter_taken:
  "c \<le> k \<Longrightarrow> k < find_counter w b x c \<Longrightarrow> os_path_exists w (candidate b x k)"
proof (induction w b x c rule: find_counter.induct)
  case (1 w b x c)
  show ?case
  proof (cases "os_path_exists w (candidate b x c)")
    case True
    then have fc: "find_counter w b x c = find_counter w b x (c + 1)"
      by (subst find_counter.simps) simp
    show ?thesis
    proof (cases "k = c")
      case True
      with \<open>os_path_exists w (candidate b x c)\<close> show ?thesis by simp
    next
      case False
      with "1.prems" fc have "c + 1 \<le> k" "k < find_counter w b x (c + 1)" by simp_all
      with "1.IH" [OF True] show ?thesis by simp
    qed
  next
    case False
    then have "find_counter w b x c = c" by (subst find_counter.simps) simp
    with "1.prems" show ?thesis by simp
  qed
qed

lemma rfind_append_absent: "c \<notin> set ys \<Longrightarrow> rfind (xs @ ys) c = rfind xs c"
proof (cases "c \<in> set xs")
  case False
  assume "c \<notin> set ys"
  with False show ?thesis by (simp add: rfind_def)
next
  case True
  assume a: "c \<notin> set ys"
  then have "takeWhile (\<lambda>x. x \<noteq> c) (rev ys @ rev xs) = rev ys @ takeWhile (\<lambda>x. x \<noteq> c) (rev xs)"
    by (intro takeWhile_append2) auto
  with True show ?thesis by (simp add: rfind_def)
qed

lemma rfind_snoc: "rfind (xs @ [c]) c = int (length xs)"
  by (simp add: rfind_def)

lemma rfind_upper: "rfind xs c < int (length xs)"
  by (simp add: rfind_def)

lemma rfind_lower: "- 1 \<le> rfind xs c"
proof -
  have "length (takeWhile (\<lambda>x. x \<noteq> c) (rev xs)) < length xs" if "c \<in> set xs"
  proof -
    have "dropWhile (\<lambda>x. x \<noteq> c) (rev xs) \<noteq> []"
      using that by (simp add: dropWhile_eq_Nil_conv)
    moreover have "length (rev xs) =
        length (takeWhile (\<lambda>x. x \<noteq> c) (rev xs)) + length (dropWhile (\<lambda>x. x \<noteq> c) (rev xs))"
      by (metis length_append takeWhile_dropWhile_id)
    ultimately show ?thesis by simp
  qed
  then show ?thesis by (auto simp: rfind_def)
qed

lemma rfind_last: "xs \<noteq> [] \<Longrightarrow> last xs \<noteq> c \<Longrightarrow> rfind xs c < int (length xs) - 1"
proof -
  assume "xs \<noteq> []" "last xs \<noteq> c"
  then obtain ys y where xs: "xs = ys @ [y]" "y \<noteq> c" by (metis append_butlast_last_id)
  then have "rfind xs c = rfind ys c" by (simp add: rfind_append_absent)
  with rfind_upper [of ys c] xs show ?thesis by simp
qed

lemma splitext_pdf_parts:
  "rfind (X @ ''.pdf'') (CHR ''.'') = int (length X) \<and>
   rfind (X @ ''.pdf'') (CHR ''/'') = rfind X (CHR ''/'') \<and>
   take (nat (int (length X) - (rfind X (CHR ''/'') + 1)))
     (drop (nat (rfind X (CHR ''/'') + 1)) (X @ ''.pdf'')) = os_path_basename X"
proof -
  have dot: "rfind (X @ ''.pdf'') (CHR ''.'') = int (length X)"
    using rfind_append_absent [of "CHR ''.''" "''pdf''" "X @ ''.''"] rfind_snoc [of X "CHR ''.''"]
    by simp
  have sep: "rfind (X @ ''.pdf'') (CHR ''/'') = rfind X (CHR ''/'')"
    by (rule rfind_append_absent) simp
  define s where "s = nat (rfind X (CHR ''/'') + 1)"
  have s: "int s = rfind X (CHR ''/'') + 1"
    using rfind_lower [of X "CHR ''/''"] by (simp add: s_def)
  have le: "s \<le> length X" using rfind_upper [of X "CHR ''/''"] s by linarith
  have "nat (int (length X) - (rfind X (CHR ''/'') + 1)) = length X - s"
    using s le by linarith
  then have seg: "take (nat (int (length X) - (rfind X (CHR ''/'') + 1)))
      (drop s (X @ ''.pdf'')) = drop s X"
    using le by simp
  from dot sep seg show ?thesis by (simp add: s_def os_path_basename_def)
qed

lemma splitext_pdf:
  assumes "list_ex (\<lambda>c. c \<noteq> CHR ''.'') (os_path_basename X)"
  shows "os_path_splitext (X @ ''.pdf'') = (X, ''.pdf'')"
proof -
  note parts = splitext_pdf_parts [of X]
  have gt: "rfind X (CHR ''/'') < int (length X)" by (rule rfind_upper)
  have "os_path_splitext (X @ ''.pdf'') =
      (if int (length X) > rfind X (CHR ''/'') \<and>
          list_ex (\<lambda>c. c \<noteq> CHR ''.'') (os_path_basename X)
       then (take (nat (int (length X))) (X @ ''.pdf''), drop (nat (int (length X))) (X @ ''.pdf''))
       else (X @ ''.pdf'', []))"
    unfolding os_path_splitext_def Let_def
    by (simp only: parts [THEN conjunct1] parts [THEN conjunct2, THEN conjunct1]
        parts [THEN conjunct2, THEN conjunct2])
  with assms gt show ?thesis by simp
qed

lemma splitext_dots_pdf:
  assumes "\<not> list_ex (\<lambda>c. c \<noteq> CHR ''.'') (os_path_basename X)"
  shows "os_path_splitext (X @ ''.pdf'') = (X @ ''.pdf'', [])"
proof -
  note parts = splitext_pdf_parts [of X]
  have "os_path_splitext (X @ ''.pdf'') =
      (if int (length X) > rfind X (CHR ''/'') \<and>
          list_ex (\<lambda>c. c \<noteq> CHR ''.'') (os_path_basename X)
       then (take (nat (int (length X))) (X @ ''.pdf''), drop (nat (int (length X))) (X @ ''.pdf''))
       else (X @ ''.pdf'', []))"
    unfolding os_path_splitext_def Let_def
    by (simp only: parts [THEN conjunct1] parts [THEN conjunct2, THEN conjunct1]
        parts [THEN conjunct2, THEN conjunct2])
  with assms show ?thesis by simp
qed

lemma str_int_1: "str_int 1 = ''1''"
  by (simp add: str_int_def str_nat.simps digit_char_def)

lemma str_int_2: "str_int 2 = ''2''"
  by (simp add: str_int_def str_nat.simps digit_char_def)

text \<open>
  C2 (amended). When no file exists at the target path, it is returned unchanged.
  Otherwise the path is split by \<^verbatim>\<open>os.path.splitext\<close> into stem and extension and the
  result is \<open>stem_n.ext\<close> for the smallest \<open>n \<ge> 1\<close> whose name does not exist; the
  returned path does not exist when the call is made. An existing \<open>X.pdf\<close> gives
  \<open>X_1.pdf\<close>, and \<open>X_2.pdf\<close> when \<open>X_1.pdf\<close> exists too, whenever the file name part of
  \<open>X\<close> has a character other than a dot; when it has none (the file is named \<open>.pdf\<close>,
  \<open>..pdf\<close>, ...) the whole name is the stem and the extension is empty, so the result
  is \<open>X.pdf_1\<close>.
\<close>

theorem unique_target_duplicate_resolution:
  "(\<not> os_path_exists w t \<longrightarrow> unique_target w t = t) \<and>
   (os_path_exists w t \<longrightarrow>
      (\<exists>n. 1 \<le> n \<and>
           unique_target w t =
             candidate (fst (os_path_splitext t)) (snd (os_path_splitext t)) n \<and>
           (\<forall>k. 1 \<le> k \<and> k < n \<longrightarrow>
              os_path_exists w
                (candidate (fst (os_path_splitext t)) (snd (os_path_splitext t)) k)))) \<and>
   \<not> os_path_exists w (unique_target w t) \<and>
   (list_ex (\<lambda>c. c \<noteq> CHR ''.'') (os_path_basename X) \<and> os_path_exists w (X @ ''.pdf'') \<longrightarrow>
      (\<not> os_path_exists w (X @ ''_1.pdf'') \<longrightarrow> unique_target w (X @ ''.pdf'') = X @ ''_1.pdf'') \<and>
      (os_path_exists w (X @ ''_1.pdf'') \<and> \<not> os_path_exists w (X @ ''_2.pdf'') \<longrightarrow>
         unique_target w (X @ ''.pdf'') = X @ ''_2.pdf'')) \<and>
   (\<not> list_ex (\<lambda>c. c \<noteq> CHR ''.'') (os_path_basename X) \<and> os_path_exists w (X @ ''.pdf'') \<and>
    \<not> os_path_exists w (X @ ''.pdf_1'') \<longrightarrow>
      unique_target w (X @ ''.pdf'') = X @ ''.pdf_1'')"
proof -
  define b where "b = fst (os_path_splitext t)"
  define x where "x = snd (os_path_splitext t)"
  from b_def x_def have sp: "os_path_splitext t = (b, x)" by simp
  have keep: "\<not> os_path_exists w t \<longrightarrow> unique_target w t = t"
    by (simp add: unique_target_def)
  have first: "os_path_exists w t \<longrightarrow>
      (\<exists>n. 1 \<le> n \<and> unique_target w t = candidate b x n \<and>
           (\<forall>k. 1 \<le> k \<and> k < n \<longrightarrow> os_path_exists w (candidate b x k)))"
  proof
    assume ex: "os_path_exists w t"
    let ?n = "find_counter w b x 1"
    have "1 \<le> ?n" by (rule find_counter_ge)
    moreover from ex sp have "unique_target w t = candidate b x ?n"
      by (simp add: unique_target_def)
    moreover have "\<forall>k. 1 \<le> k \<and> k < ?n \<longrightarrow> os_path_exists w (candidate b x k)"
      using find_counter_taken by blast
    ultimately show "\<exists>n. 1 \<le> n \<and> unique_target w t = candidate b x n \<and>
           (\<forall>k. 1 \<le> k \<and> k < n \<longrightarrow> os_path_exists w (candidate b x k))"
      by blast
  qed
  have free: "\<not> os_path_exists w (unique_target w t)"
  proof (cases "os_path_exists w t")
    case True
    with sp have "unique_target w t = candidate b x (find_counter w b x 1)"
      by (simp add: unique_target_def)
    then show ?thesis by (simp add: find_counter_free)
  next
    case False
    then show ?thesis by (simp add: unique_target_def)
  qed
  have pdf: "list_ex (\<lambda>c. c \<noteq> CHR ''.'') (os_path_basename X) \<and> os_path_exists w (X @ ''.pdf'') \<longrightarrow>
      (\<not> os_path_exists w (X @ ''_1.pdf'') \<longrightarrow> unique_target w (X @ ''.pdf'') = X @ ''_1.pdf'') \<and>
      (os_path_exists w (X @ ''_1.pdf'') \<and> \<not> os_path_exists w (X @ ''_2.pdf'') \<longrightarrow>
         unique_target w (X @ ''.pdf'') = X @ ''_2.pdf'')"
  proof (intro impI, elim conjE)
    assume X: "list_ex (\<lambda>c. c \<noteq> CHR ''.'') (os_path_basename X)"
      and ex: "os_path_exists w (X @ ''.pdf'')"
    have c1: "candidate X ''.pdf'' 1 = X @ ''_1.pdf''"
      by (simp add: candidate_def str_int_1)
    have c2: "candidate X ''.pdf'' 2 = X @ ''_2.pdf''"
      by (simp add: candidate_def str_int_2)
    have u: "unique_target w (X @ ''.pdf'') = candidate X ''.pdf'' (find_counter w X ''.pdf'' 1)"
      using ex splitext_pdf [OF X] by (simp add: unique_target_def)
    have one: "\<not> os_path_exists w (X @ ''_1.pdf'') \<longrightarrow> unique_target w (X @ ''.pdf'') = X @ ''_1.pdf''"
    proof
      assume "\<not> os_path_exists w (X @ ''_1.pdf'')"
      then have "find_counter w X ''.pdf'' 1 = 1"
        by (subst find_counter.simps) (simp add: c1)
      with u c1 show "unique_target w (X @ ''.pdf'') = X @ ''_1.pdf''" by simp
    qed
    have two: "os_path_exists w (X @ ''_1.pdf'') \<and> \<not> os_path_exists w (X @ ''_2.pdf'') \<longrightarrow>
         unique_target w (X @ ''.pdf'') = X @ ''_2.pdf''"
    proof
      assume a: "os_path_exists w (X @ ''_1.pdf'') \<and> \<not> os_path_exists w (X @ ''_2.pdf'')"
      then have "find_counter w X ''.pdf'' 2 = 2"
        by (subst find_counter.simps) (simp add: c2)
      with a have "find_counter w X ''.pdf'' 1 = 2"
        by (subst find_counter.simps) (simp add: c1)
      with u c2 show "unique_target w (X @ ''.pdf'') = X @ ''_2.pdf''" by simp
    qed
    from one two show "(\<not> os_path_exists w (X @ ''_1.pdf'') \<longrightarrow> unique_target w (X @ ''.pdf'') = X @ ''_1.pdf'') \<and>
      (os_path_exists w (X @ ''_1.pdf'') \<and> \<not> os_path_exists w (X @ ''_2.pdf'') \<longrightarrow>
         unique_target w (X @ ''.pdf'') = X @ ''_2.pdf'')" by (rule conjI)
  qed
  have dots: "\<not> list_ex (\<lambda>c. c \<noteq> CHR ''.'') (os_path_basename X) \<and>
      os_path_exists w (X @ ''.pdf'') \<and> \<not> os_path_exists w (X @ ''.pdf_1'') \<longrightarrow>
      unique_target w (X @ ''.pdf'') = X @ ''.pdf_1''"
  proof (intro impI, elim conjE)
    assume X: "\<not> list_ex (\<lambda>c. c \<noteq> CHR ''.'') (os_path_basename X)"
      and ex: "os_path_exists w (X @ ''.pdf'')"
      and free1: "\<not> os_path_exists w (X @ ''.pdf_1'')"
    have c1: "candidate (X @ ''.pdf'') [] 1 = X @ ''.pdf_1''"
      by (simp add: candidate_def str_int_1)
    have "unique_target w (X @ ''.pdf'') =
        candidate (X @ ''.pdf'') [] (find_counter w (X @ ''.pdf'') [] 1)"
      using ex splitext_dots_pdf [OF X] by (simp add: unique_target_def)
    moreover from free1 have "find_counter w (X @ ''.pdf'') [] 1 = 1"
      by (subst find_counter.simps) (simp add: c1)
    ultimately show "unique_target w (X @ ''.pdf'') = X @ ''.pdf_1''"
      using c1 by simp
  qed
  from keep first free pdf dots show ?thesis unfolding b_def x_def by blast
qed

theorem unique_target_duplicate_resolution_witness:
  "unique_target (world_of [''out/a.pdf''] [''out'']) ''out/b.pdf'' = ''out/b.pdf'' \<and>
   unique_target (world_of [''out/a.pdf''] [''out'']) ''out/a.pdf'' = ''out/a_1.pdf'' \<and>
   unique_target (world_of [''out/a.pdf'', ''out/a_1.pdf''] [''out'']) ''out/a.pdf'' = ''out/a_2.pdf'' \<and>
   \<not> os_path_exists (world_of [''out/a.pdf'', ''out/a_1.pdf''] [''out'']) ''out/a_2.pdf'' \<and>
   unique_target (world_of [''out/a..pdf''] [''out'']) ''out/a..pdf'' = ''out/a._1.pdf'' \<and>
   unique_target (world_of [''out/.pdf''] [''out'']) ''out/.pdf'' = ''out/.pdf_1''"
proof -
  have a: "list_ex (\<lambda>c. c \<noteq> CHR ''.'') (os_path_basename ''out/a'')"
    by code_simp
  have d: "list_ex (\<lambda>c. c \<noteq> CHR ''.'') (os_path_basename ''out/a.'')"
    by code_simp
  have h: "\<not> list_ex (\<lambda>c. c \<noteq> CHR ''.'') (os_path_basename ''out/'')"
    by code_simp
  from a unique_target_duplicate_resolution
          [of "world_of [''out/a.pdf''] [''out'']" "''out/b.pdf''" "''out/a''"]
  have one: "unique_target (world_of [''out/a.pdf''] [''out'']) ''out/b.pdf'' = ''out/b.pdf'' \<and>
      unique_target (world_of [''out/a.pdf''] [''out'']) ''out/a.pdf'' = ''out/a_1.pdf''"
    by (simp add: os_path_exists_def world_of_def)
  from a unique_target_duplicate_resolution
          [of "world_of [''out/a.pdf'', ''out/a_1.pdf''] [''out'']" "''out/a.pdf''" "''out/a''"]
  have two: "unique_target (world_of [''out/a.pdf'', ''out/a_1.pdf''] [''out'']) ''out/a.pdf'' =
        ''out/a_2.pdf'' \<and>
      \<not> os_path_exists (world_of [''out/a.pdf'', ''out/a_1.pdf''] [''out'']) ''out/a_2.pdf''"
    by (simp add: os_path_exists_def world_of_def)
  from d unique_target_duplicate_resolution
          [of "world_of [''out/a..pdf''] [''out'']" "''out/a..pdf''" "''out/a.''"]
  have three: "unique_target (world_of [''out/a..pdf''] [''out'']) ''out/a..pdf'' = ''out/a._1.pdf''"
    by (simp add: os_path_exists_def world_of_def)
  from h unique_target_duplicate_resolution
          [of "world_of [''out/.pdf''] [''out'']" "''out/.pdf''" "''out/''"]
  have four: "unique_target (world_of [''out/.pdf''] [''out'']) ''out/.pdf'' = ''out/.pdf_1''"
    by (simp add: os_path_exists_def world_of_def)
  from one two three four show ?thesis by simp
qed

text \<open>
  C2 as stated fails on a file named \<open>.pdf\<close>, which \<open>process_files\<close> accepts: with
  \<open>X\<close> the directory prefix, \<open>X.pdf\<close> exists and \<open>X_1.pdf\<close> does not, yet the result is
  \<open>X.pdf_1\<close>, since \<^verbatim>\<open>os.path.splitext\<close> takes a leading dot as part of the stem.
\<close>

theorem unique_target_dot_pdf_counterexample:
  "os_path_exists (world_of [''out/.pdf''] [''out'']) (''out/'' @ ''.pdf'') \<and>
   \<not> os_path_exists (world_of [''out/.pdf''] [''out'']) (''out/'' @ ''_1.pdf'') \<and>
   unique_target (world_of [''out/.pdf''] [''out'']) (''out/'' @ ''.pdf'') = ''out/.pdf_1'' \<and>
   unique_target (world_of [''out/.pdf''] [''out'']) (''out/'' @ ''.pdf'') \<noteq> ''out/'' @ ''_1.pdf''"
  by code_simp

text \<open>
  C4. The mapping from labels to directory names sends \<open>Invoice\<close> to \<open>Invoices\<close>,
  \<open>Protocol\<close> to \<open>Protocols\<close>, \<open>Report\<close> to \<open>Reports\<close>, and every label outside this
  set to the label followed by \<open>s\<close> (\<open>Foo\<close> to \<open>Foos\<close>).
\<close>

theorem label_to_dir_mapping:
  "LABEL_TO_DIR ''Invoice'' = Some ''Invoices'' \<and>
   LABEL_TO_DIR ''Protocol'' = Some ''Protocols'' \<and>
   LABEL_TO_DIR ''Report'' = Some ''Reports'' \<and>
   dir_name_of ''Invoice'' = ''Invoices'' \<and>
   dir_name_of ''Protocol'' = ''Protocols'' \<and>
   dir_name_of ''Report'' = ''Reports'' \<and>
   (doc_type \<notin> {''Invoice'', ''Protocol'', ''Report''} \<longrightarrow>
      LABEL_TO_DIR doc_type = None \<and> dir_name_of doc_type = doc_type @ ''s'')"
  by (simp add: dir_name_of_def LABEL_TO_DIR_def)

theorem label_to_dir_mapping_witness:
  "''Foo'' \<notin> {''Invoice'', ''Protocol'', ''Report''} \<and> dir_name_of ''Foo'' = ''Foos''"
  using label_to_dir_mapping [of "''Foo''"] by simp

text \<open>
  C5. For every source path and date, a move whose document type is absent returns the
  skip outcome \<^verbatim>\<open>None\<close> and leaves the world as it was: no directory is created, no
  file is moved.
\<close>

theorem move_without_type_is_skip:
  "move_file_to_correct_directory cfg e w file_path None document_date = (None, w)"
  by (simp add: move_file_to_correct_directory_def)

text \<open>
  C8. When listing the input directory fails, \<open>process_files\<close> returns 0 as an ordinary
  result; no file or directory is touched and the classifier is not called. The failure
  is logged.
\<close>

theorem listing_failure_gives_zero:
  assumes "os_listdir e w (INPUT_DIR cfg) = Inl err"
  shows "fst (process_files cfg e w) = 0 \<and>
         files (snd (process_files cfg e w)) = files w \<and>
         dirs (snd (process_files cfg e w)) = dirs w \<and>
         clf_calls (snd (process_files cfg e w)) = clf_calls w \<and>
         log_records (snd (process_files cfg e w)) =
           log_records w @ [(ERROR, ''Failed to list input directory: %s'', [ArgOSError err])]"
  using assms by (simp add: process_files_def logger_def)

theorem listing_failure_gives_zero_witness:
  "os_listdir (quiet_env\<lparr>listdir_fault := (\<lambda>_. Some PermissionError)\<rparr>)
     (world_of [''./incoming_documents/a.pdf''] [''./incoming_documents''])
     (INPUT_DIR default_config) = Inl PermissionError \<and>
   process_files default_config (quiet_env\<lparr>listdir_fault := (\<lambda>_. Some PermissionError)\<rparr>)
     (world_of [''./incoming_documents/a.pdf''] [''./incoming_documents'']) =
   (0, \<lparr>files = [''./incoming_documents/a.pdf''], dirs = [''./incoming_documents''],
        log_records = [(ERROR, ''Failed to list input directory: %s'', [ArgOSError PermissionError])],
        clf_calls = []\<rparr>)"
proof -
  let ?e = "quiet_env\<lparr>listdir_fault := (\<lambda>_. Some PermissionError)\<rparr>"
  let ?w = "world_of [''./incoming_documents/a.pdf''] [''./incoming_documents'']"
  have l: "os_listdir ?e ?w (INPUT_DIR default_config) = Inl PermissionError"
    by (simp add: os_listdir_def world_of_def default_config_def)
  from listing_failure_gives_zero [OF l] l show ?thesis
    by (simp add: world_of_def prod_eq_iff)
qed

text \<open>Facts about \<open>str_int\<close> and \<open>join_step\<close> for the layout of the target directory.\<close>

lemma dir_name_of_append: "dir_name_of doc_type = doc_type @ ''s''"
  by (simp add: dir_name_of_def LABEL_TO_DIR_def)

lemma digit_char_not_sep: "digit_char n \<noteq> CHR ''/''"
proof -
  have "n mod 10 < length ''0123456789''" by simp
  then have "''0123456789'' ! (n mod 10) \<in> set ''0123456789''" by (rule nth_mem)
  then show ?thesis unfolding digit_char_def by auto
qed

lemma str_nat_no_sep: "CHR ''/'' \<notin> set (str_nat n)"
proof (induction n rule: str_nat.induct)
  case (1 n)
  show ?case
  proof (cases "n < 10")
    case True
    then have "str_nat n = [digit_char n]" by (subst str_nat.simps) simp
    then show ?thesis using digit_char_not_sep [of n] by simp
  next
    case False
    then have "str_nat n = str_nat (n div 10) @ [digit_char (n mod 10)]"
      by (subst str_nat.simps) simp
    with "1.IH" [OF False] digit_char_not_sep [of "n mod 10"] show ?thesis by simp
  qed
qed

lemma str_int_no_sep: "CHR ''/'' \<notin> set (str_int i)"
  by (simp add: str_int_def str_nat_no_sep)

lemma str_int_nonempty: "str_int i \<noteq> []"
  by (simp add: str_int_def str_nat_nonempty)

lemma str_int_ends: "hd (str_int i) \<noteq> CHR ''/''" "last (str_int i) \<noteq> CHR ''/''"
proof -
  have "hd (str_int i) \<in> set (str_int i)" "last (str_int i) \<in> set (str_int i)"
    by (simp_all add: str_int_nonempty)
  with str_int_no_sep [of i]
  show "hd (str_int i) \<noteq> CHR ''/''" "last (str_int i) \<noteq> CHR ''/''" by metis+
qed

lemma startswith_sep: "startswith b ''/'' \<longleftrightarrow> b \<noteq> [] \<and> hd b = CHR ''/''"
  by (cases b) (simp_all add: startswith_def)

lemma endswith_sep: "endswith p ''/'' \<longleftrightarrow> p \<noteq> [] \<and> last p = CHR ''/''"
proof (cases "p = []")
  case True
  then show ?thesis by (simp add: endswith_def)
next
  case False
  then obtain q c where p: "p = q @ [c]" by (metis append_butlast_last_id)
  then show ?thesis by (simp add: endswith_def)
qed

lemma join_step_plain:
  assumes "path \<noteq> []" "last path \<noteq> CHR ''/''" "b = [] \<or> hd b \<noteq> CHR ''/''"
  shows "join_step path b = path @ ''/'' @ b"
  using assms by (auto simp: join_step_def startswith_sep endswith_sep)

text \<open>
  C3 (amended). The target directory is a function of the configuration, the type label
  and the date alone (\<open>target_directory\<close> takes neither the world nor the environment,
  so equal arguments give equal strings). When the output root is non-empty and does not
  end with a separator, and the label does not start with one, it is exactly
  \<open><output_root>/<dir_name>/<year>/Month_<month>/Week_<week>\<close>.
\<close>

theorem target_directory_layout:
  assumes "OUTPUT_DIR cfg \<noteq> []" and "\<not> endswith (OUTPUT_DIR cfg) ''/''"
    and "\<not> startswith doc_type ''/''"
  shows "target_directory cfg doc_type document_date =
           OUTPUT_DIR cfg @ ''/'' @ dir_name_of doc_type @ ''/'' @
           str_int (year document_date) @ ''/Month_'' @ str_int (month document_date) @
           ''/Week_'' @ str_int (get_week_of_month document_date)"
proof -
  let ?root = "OUTPUT_DIR cfg" and ?d = "dir_name_of doc_type"
  let ?y = "str_int (year document_date)" and ?m = "''Month_'' @ str_int (month document_date)"
  let ?k = "''Week_'' @ str_int (get_week_of_month document_date)"
  have root: "last ?root \<noteq> CHR ''/''" using assms(1,2) by (simp add: endswith_sep)
  have d: "?d = [] \<or> hd ?d \<noteq> CHR ''/''"
    using assms(3) by (cases doc_type) (simp_all add: dir_name_of_append startswith_sep)
  have s1: "join_step ?root ?d = ?root @ ''/'' @ ?d"
    using assms(1) root d by (rule join_step_plain)
  have l1: "last (?root @ ''/'' @ ?d) \<noteq> CHR ''/''" by (simp add: dir_name_of_append)
  have y: "?y \<noteq> []" "hd ?y \<noteq> CHR ''/''" "last ?y \<noteq> CHR ''/''"
    by (simp_all add: str_int_nonempty str_int_ends)
  have s2: "join_step (?root @ ''/'' @ ?d) ?y = ?root @ ''/'' @ ?d @ ''/'' @ ?y"
    using join_step_plain [of "?root @ ''/'' @ ?d" ?y] l1 y by simp
  have l2: "last (?root @ ''/'' @ ?d @ ''/'' @ ?y) \<noteq> CHR ''/''" using y by simp
  have s3: "join_step (?root @ ''/'' @ ?d @ ''/'' @ ?y) ?m =
              ?root @ ''/'' @ ?d @ ''/'' @ ?y @ ''/'' @ ?m"
    using join_step_plain [of "?root @ ''/'' @ ?d @ ''/'' @ ?y" ?m] l2 by simp
  have "last (str_int (month document_date)) \<noteq> CHR ''/''"
    by (rule str_int_ends)
  then have l3: "last (?root @ ''/'' @ ?d @ ''/'' @ ?y @ ''/'' @ ?m) \<noteq> CHR ''/''"
    using str_int_nonempty [of "month document_date"] by simp
  have s4: "join_step (?root @ ''/'' @ ?d @ ''/'' @ ?y @ ''/'' @ ?m) ?k =
              ?root @ ''/'' @ ?d @ ''/'' @ ?y @ ''/'' @ ?m @ ''/'' @ ?k"
    using join_step_plain [of "?root @ ''/'' @ ?d @ ''/'' @ ?y @ ''/'' @ ?m" ?k] l3 by simp
  show ?thesis
    unfolding target_directory_def Let_def os_path_join_def
    by (simp only: foldl.simps s1 s2 s3 s4) simp
qed

theorem target_directory_layout_witness:
  "target_directory default_config ''Foo'' \<lparr>year = 2024, month = 6, day = 15\<rparr> =
     ''./sorted_documents/Foos/2024/Month_6/Week_3''"
proof -
  have h: "OUTPUT_DIR default_config \<noteq> []" "\<not> endswith (OUTPUT_DIR default_config) ''/''"
    "\<not> startswith ''Foo'' ''/''"
    by code_simp+
  have "OUTPUT_DIR default_config @ ''/'' @ dir_name_of ''Foo'' @ ''/'' @
          str_int (year \<lparr>year = 2024, month = 6, day = 15\<rparr>) @ ''/Month_'' @
          str_int (month \<lparr>year = 2024, month = 6, day = 15\<rparr>) @ ''/Week_'' @
          str_int (get_week_of_month \<lparr>year = 2024, month = 6, day = 15\<rparr>) =
        ''./sorted_documents/Foos/2024/Month_6/Week_3''"
    by code_simp
  with target_directory_layout [OF h, of "\<lparr>year = 2024, month = 6, day = 15\<rparr>"]
  show ?thesis by simp
qed

text \<open>
  C3 as stated, for every type label, fails: \<^verbatim>\<open>os.path.join\<close> drops what precedes a
  component that starts with a separator, so the label \<open>/x\<close> is not placed under the
  output root.
\<close>

theorem target_directory_absolute_label_counterexample:
  "target_directory default_config ''/x'' \<lparr>year = 2024, month = 6, day = 15\<rparr> =
     ''/xs/2024/Month_6/Week_3'' \<and>
   target_directory default_config ''/x'' \<lparr>year = 2024, month = 6, day = 15\<rparr> \<noteq>
     OUTPUT_DIR default_config @ ''/'' @ dir_name_of ''/x'' @ ''/'' @
     str_int (year \<lparr>year = 2024, month = 6, day = 15\<rparr>) @ ''/Month_'' @
     str_int (month \<lparr>year = 2024, month = 6, day = 15\<rparr>) @ ''/Week_'' @
     str_int (get_week_of_month \<lparr>year = 2024, month = 6, day = 15\<rparr>)"
  by code_simp

lemma logger_clf_calls: "clf_calls (logger lvl msg args w) = clf_calls w"
  by (simp add: logger_def)

lemma extract_text_clf_calls:
  "extract_text_from_pdf e w file_path = (text, w1) \<Longrightarrow> clf_calls w1 = clf_calls w"
  by (auto simp: extract_text_from_pdf_def logger_clf_calls
      split: sum.splits pdf_error.splits)

text \<open>
  C6 (amended). Classification returns an absent result when the extracted text is empty,
  without calling the classifier, and when the classifier raises an exception, which
  does not propagate. Otherwise the classifier has been called once, on the text and the
  three candidate labels; when the labels and the scores it returned are both non-empty
  the result is the first label, and when either list is empty the \<^verbatim>\<open>IndexError\<close> is
  caught as well and the result is absent.
\<close>

theorem classify_document_outcomes:
  assumes "extract_text_from_pdf e w file_path = (text, w1)"
  shows
    "(text = [] \<longrightarrow>
        fst (classify_document e w file_path) = None \<and>
        clf_calls (snd (classify_document e w file_path)) = clf_calls w) \<and>
     (text \<noteq> [] \<longrightarrow>
        clf_calls (snd (classify_document e w file_path)) =
          clf_calls w @ [(text, [''Invoice'', ''Protocol'', ''Report''])]) \<and>
     (text \<noteq> [] \<and> classifier e text CANDIDATE_LABELS = Inl ex \<longrightarrow>
        fst (classify_document e w file_path) = None) \<and>
     (text \<noteq> [] \<and> classifier e text CANDIDATE_LABELS = Inr result \<and>
      labels result \<noteq> [] \<and> scores result \<noteq> [] \<longrightarrow>
        fst (classify_document e w file_path) = Some (hd (labels result))) \<and>
     (text \<noteq> [] \<and> classifier e text CANDIDATE_LABELS = Inr result \<and>
      (labels result = [] \<or> scores result = []) \<longrightarrow>
        fst (classify_document e w file_path) = None)"
proof -
  have c: "clf_calls w1 = clf_calls w" using assms by (rule extract_text_clf_calls)
  have empty: "text = [] \<longrightarrow>
        fst (classify_document e w file_path) = None \<and>
        clf_calls (snd (classify_document e w file_path)) = clf_calls w"
    using assms c by (simp add: classify_document_def logger_clf_calls)
  have called: "text \<noteq> [] \<longrightarrow>
        clf_calls (snd (classify_document e w file_path)) =
          clf_calls w @ [(text, [''Invoice'', ''Protocol'', ''Report''])]"
    using assms c
    by (auto simp: classify_document_def Let_def logger_clf_calls CANDIDATE_LABELS_def
        split: sum.splits list.splits)
  have raised: "text \<noteq> [] \<and> classifier e text CANDIDATE_LABELS = Inl ex \<longrightarrow>
        fst (classify_document e w file_path) = None"
    using assms by (simp add: classify_document_def Let_def)
  have top: "text \<noteq> [] \<and> classifier e text CANDIDATE_LABELS = Inr result \<and>
      labels result \<noteq> [] \<and> scores result \<noteq> [] \<longrightarrow>
        fst (classify_document e w file_path) = Some (hd (labels result))"
    using assms by (auto simp: classify_document_def Let_def split: list.splits)
  have index: "text \<noteq> [] \<and> classifier e text CANDIDATE_LABELS = Inr result \<and>
      (labels result = [] \<or> scores result = []) \<longrightarrow>
        fst (classify_document e w file_path) = None"
    using assms by (auto simp: classify_document_def Let_def split: list.splits)
  from empty called raised top index show ?thesis by blast
qed

lemma extract_example:
  "extract_text_from_pdf (quiet_env\<lparr>classifier := c\<rparr>) (world_of [''in/a.pdf''] [''in'']) ''in/a.pdf'' =
     (''invoice text'', world_of [''in/a.pdf''] [''in''])"
  by (simp add: extract_text_from_pdf_def pdfplumber_open_def quiet_env_def world_of_def
      strip_def isspace_def)

lemma extract_missing:
  "fst (extract_text_from_pdf quiet_env (world_of [] [''in'']) ''in/a.pdf'') = []"
  by (simp add: extract_text_from_pdf_def pdfplumber_open_def quiet_env_def world_of_def)

theorem classify_document_outcomes_witness:
  "fst (classify_document quiet_env (world_of [] [''in'']) ''in/a.pdf'') = None \<and>
   clf_calls (snd (classify_document quiet_env (world_of [] [''in'']) ''in/a.pdf'')) = [] \<and>
   fst (classify_document raising_env (world_of [''in/a.pdf''] [''in'']) ''in/a.pdf'') = None \<and>
   fst (classify_document quiet_env (world_of [''in/a.pdf''] [''in'']) ''in/a.pdf'') =
     Some ''Invoice'' \<and>
   clf_calls (snd (classify_document quiet_env (world_of [''in/a.pdf''] [''in'']) ''in/a.pdf'')) =
     [(''invoice text'', [''Invoice'', ''Protocol'', ''Report''])] \<and>
   fst (classify_document scoreless_env (world_of [''in/a.pdf''] [''in'']) ''in/a.pdf'') = None"
proof -
  let ?w = "world_of [''in/a.pdf''] [''in'']"
  obtain w1 where m: "extract_text_from_pdf quiet_env (world_of [] [''in'']) ''in/a.pdf'' = ([], w1)"
    using extract_missing by (metis prod.collapse)
  have q: "extract_text_from_pdf quiet_env ?w ''in/a.pdf'' = (''invoice text'', ?w)"
    using extract_example [of "classifier quiet_env"] by simp
  have r: "extract_text_from_pdf raising_env ?w ''in/a.pdf'' = (''invoice text'', ?w)"
    unfolding raising_env_def by (rule extract_example)
  have s: "extract_text_from_pdf scoreless_env ?w ''in/a.pdf'' = (''invoice text'', ?w)"
    unfolding scoreless_env_def by (rule extract_example)
  have a: "fst (classify_document quiet_env (world_of [] [''in'']) ''in/a.pdf'') = None \<and>
     clf_calls (snd (classify_document quiet_env (world_of [] [''in'']) ''in/a.pdf'')) = []"
    using classify_document_outcomes [OF m] by (simp add: world_of_def)
  have b: "fst (classify_document raising_env ?w ''in/a.pdf'') = None"
    using classify_document_outcomes [OF r, of "PyException ''Model error''"]
    by (simp add: raising_env_def)
  have c: "fst (classify_document quiet_env ?w ''in/a.pdf'') = Some ''Invoice'' \<and>
     clf_calls (snd (classify_document quiet_env ?w ''in/a.pdf'')) =
       [(''invoice text'', [''Invoice'', ''Protocol'', ''Report''])]"
    using classify_document_outcomes [OF q, of _
      "\<lparr>labels = [''Invoice'', ''Protocol'', ''Report''], scores = [0.9, 0.05, 0.05]\<rparr>"]
    by (simp add: quiet_env_def world_of_def)
  have d: "fst (classify_document scoreless_env ?w ''in/a.pdf'') = None"
    using classify_document_outcomes [OF s, of _
      "\<lparr>labels = [''Invoice'', ''Protocol'', ''Report''], scores = []\<rparr>"]
    by (simp add: scoreless_env_def)
  from a b c d show ?thesis by simp
qed

text \<open>
  C6 as stated fails: the classifier returns normally with a non-empty list of labels
  and no scores; \<^verbatim>\<open>result['scores'][0]\<close> raises inside the \<^verbatim>\<open>try\<close>, and the result is
  absent instead of the first label.
\<close>

theorem classify_document_empty_scores_counterexample:
  "fst (extract_text_from_pdf scoreless_env (world_of [''in/a.pdf''] [''in'']) ''in/a.pdf'') =
     ''invoice text'' \<and>
   classifier scoreless_env ''invoice text'' CANDIDATE_LABELS =
     Inr \<lparr>labels = [''Invoice'', ''Protocol'', ''Report''], scores = []\<rparr> \<and>
   fst (classify_document scoreless_env (world_of [''in/a.pdf''] [''in'']) ''in/a.pdf'') = None \<and>
   fst (classify_document scoreless_env (world_of [''in/a.pdf''] [''in'']) ''in/a.pdf'') \<noteq>
     Some ''Invoice''"
proof -
  have s: "extract_text_from_pdf scoreless_env (world_of [''in/a.pdf''] [''in'']) ''in/a.pdf'' =
      (''invoice text'', world_of [''in/a.pdf''] [''in''])"
    unfolding scoreless_env_def by (rule extract_example)
  then show ?thesis
    by (simp add: classify_document_def Let_def scoreless_env_def)
qed

text \<open>How a move fails, and what the loop body does with a classified file.\<close>

lemma logger_files [simp]: "files (logger lvl msg args w) = files w"
  by (simp add: logger_def)

lemma logger_dirs [simp]: "dirs (logger lvl msg args w) = dirs w"
  by (simp add: logger_def)

lemma os_path_exists_logger [simp]:
  "os_path_exists (logger lvl msg args w) p = os_path_exists w p"
  by (simp add: os_path_exists_def)

lemma shutil_move_logger_fails:
  "shutil_move e w src dst = Inl err \<Longrightarrow> shutil_move e (logger lvl msg args w) src dst = Inl err"
  by (auto simp: shutil_move_def Let_def split: if_splits option.splits)

lemma move_when_makedirs_fails:
  assumes "os_makedirs e w (target_directory cfg label d) = Inl err"
  shows "move_file_to_correct_directory cfg e w file_path (Some label) d =
           (None, logger ERROR ''Failed to create directory %s: %s''
                    [ArgStr (target_directory cfg label d), ArgOSError err] w)"
  using assms by (simp add: move_file_to_correct_directory_def Let_def)

lemma move_when_shutil_fails:
  assumes "os_makedirs e w (target_directory cfg label d) = Inr w1"
    and "shutil_move e w1 file_path
           (unique_target w1
              (os_path_join (target_directory cfg label d) [os_path_basename file_path])) =
         Inl merr"
  shows "\<exists>w2. move_file_to_correct_directory cfg e w file_path (Some label) d =
           (None, logger ERROR ''Failed to move file %s: %s''
                    [ArgStr file_path, ArgMoveError merr] w2) \<and>
              files w2 = files w1 \<and> dirs w2 = dirs w1"
proof -
  let ?t = "os_path_join (target_directory cfg label d) [os_path_basename file_path]"
  let ?w2 = "if os_path_exists w1 ?t
             then logger INFO ''Found duplicate file: %s. Renaming.'' [ArgStr ?t] w1 else w1"
  have "shutil_move e ?w2 file_path (unique_target w1 ?t) = Inl merr"
    using assms(2) by (simp add: shutil_move_logger_fails)
  then have "move_file_to_correct_directory cfg e w file_path (Some label) d =
           (None, logger ERROR ''Failed to move file %s: %s''
                    [ArgStr file_path, ArgMoveError merr] ?w2)"
    using assms(1) by (simp add: move_file_to_correct_directory_def Let_def)
  moreover have "files ?w2 = files w1 \<and> dirs ?w2 = dirs w1" by simp
  ultimately show ?thesis by blast
qed

lemma process_file_classified:
  assumes "classify_document e w (os_path_join (INPUT_DIR cfg) [file_name]) = (Some label, w')"
  shows "process_file cfg e file_name processed w =
           (if truthy (fst (move_file_to_correct_directory cfg e
                  (logger INFO ''Document %s classified as: %s''
                     [ArgStr file_name, ArgStr label] w')
                  (os_path_join (INPUT_DIR cfg) [file_name]) (Some label)
                  (now e (os_path_join (INPUT_DIR cfg) [file_name]))))
            then processed + 1 else processed,
            snd (move_file_to_correct_directory cfg e
                  (logger INFO ''Document %s classified as: %s''
                     [ArgStr file_name, ArgStr label] w')
                  (os_path_join (INPUT_DIR cfg) [file_name]) (Some label)
                  (now e (os_path_join (INPUT_DIR cfg) [file_name]))))"
  using assms by (simp add: process_file_def Let_def case_prod_unfold)


text \<open>
  C7 (amended). When a filesystem error occurs while the target directory is created or
  while the file is moved, the move operation logs an error record with the offending
  path and the underlying error and returns \<^verbatim>\<open>None\<close>, the same value as a skip; no file
  has moved. The loop over the files then goes on with the next file, the count
  unchanged: one file's failure does not abort the batch.
\<close>

theorem move_failure_is_logged_and_loop_continues:
  "(os_makedirs e w (target_directory cfg label d) = Inl err \<longrightarrow>
      move_file_to_correct_directory cfg e w file_path (Some label) d =
        (None, logger ERROR ''Failed to create directory %s: %s''
                 [ArgStr (target_directory cfg label d), ArgOSError err] w)) \<and>
   (os_makedirs e w (target_directory cfg label d) = Inr w1 \<and>
    shutil_move e w1 file_path
      (unique_target w1
         (os_path_join (target_directory cfg label d) [os_path_basename file_path])) =
      Inl merr \<longrightarrow>
      fst (move_file_to_correct_directory cfg e w file_path (Some label) d) = None \<and>
      files (snd (move_file_to_correct_directory cfg e w file_path (Some label) d)) = files w1 \<and>
      dirs (snd (move_file_to_correct_directory cfg e w file_path (Some label) d)) = dirs w1 \<and>
      last (log_records (snd (move_file_to_correct_directory cfg e w file_path (Some label) d))) =
        (ERROR, ''Failed to move file %s: %s'', [ArgStr file_path, ArgMoveError merr])) \<and>
   (classify_document e w0 (os_path_join (INPUT_DIR cfg) [file_name]) = (Some label, w') \<and>
    fst (move_file_to_correct_directory cfg e
           (logger INFO ''Document %s classified as: %s'' [ArgStr file_name, ArgStr label] w')
           (os_path_join (INPUT_DIR cfg) [file_name]) (Some label)
           (now e (os_path_join (INPUT_DIR cfg) [file_name]))) = None \<longrightarrow>
      process_loop cfg e (file_name # rest) processed w0 =
        process_loop cfg e rest processed
          (snd (move_file_to_correct_directory cfg e
                  (logger INFO ''Document %s classified as: %s''
                     [ArgStr file_name, ArgStr label] w')
                  (os_path_join (INPUT_DIR cfg) [file_name]) (Some label)
                  (now e (os_path_join (INPUT_DIR cfg) [file_name])))))"
proof (intro conjI impI)
  assume "os_makedirs e w (target_directory cfg label d) = Inl err"
  then show "move_file_to_correct_directory cfg e w file_path (Some label) d =
        (None, logger ERROR ''Failed to create directory %s: %s''
                 [ArgStr (target_directory cfg label d), ArgOSError err] w)"
    by (rule move_when_makedirs_fails)
next
  assume a: "os_makedirs e w (target_directory cfg label d) = Inr w1 \<and>
    shutil_move e w1 file_path
      (unique_target w1
         (os_path_join (target_directory cfg label d) [os_path_basename file_path])) =
      Inl merr"
  then obtain w2 where
    m: "move_file_to_correct_directory cfg e w file_path (Some label) d =
           (None, logger ERROR ''Failed to move file %s: %s''
                    [ArgStr file_path, ArgMoveError merr] w2)"
    and f: "files w2 = files w1" "dirs w2 = dirs w1"
    using move_when_shutil_fails [of e w cfg label d w1 file_path merr] by blast
  show "fst (move_file_to_correct_directory cfg e w file_path (Some label) d) = None"
    by (simp add: m)
  show "files (snd (move_file_to_correct_directory cfg e w file_path (Some label) d)) = files w1"
    by (simp add: m f)
  show "dirs (snd (move_file_to_correct_directory cfg e w file_path (Some label) d)) = dirs w1"
    by (simp add: m f)
  show "last (log_records (snd (move_file_to_correct_directory cfg e w file_path (Some label) d))) =
        (ERROR, ''Failed to move file %s: %s'', [ArgStr file_path, ArgMoveError merr])"
    by (simp add: m logger_def)
next
  let ?p = "os_path_join (INPUT_DIR cfg) [file_name]"
  let ?m = "move_file_to_correct_directory cfg e
           (logger INFO ''Document %s classified as: %s'' [ArgStr file_name, ArgStr label] w')
           ?p (Some label) (now e ?p)"
  assume a: "classify_document e w0 ?p = (Some label, w') \<and> fst ?m = None"
  then have "process_file cfg e file_name processed w0 = (processed, snd ?m)"
    using process_file_classified [of e w0 cfg file_name label w' processed]
    by (simp add: truthy_def)
  then show "process_loop cfg e (file_name # rest) processed w0 =
        process_loop cfg e rest processed (snd ?m)"
    by simp
qed

theorem move_failure_is_logged_and_loop_continues_witness:
  "move_file_to_correct_directory default_config denied_env inbox
     ''./incoming_documents/a.pdf'' (Some ''Invoice'') mid_june =
     (None, logger ERROR ''Failed to create directory %s: %s''
              [ArgStr ''./sorted_documents/Invoices/2024/Month_6/Week_3'',
               ArgOSError PermissionError] inbox) \<and>
   fst (move_file_to_correct_directory default_config stuck_env inbox
          ''./incoming_documents/a.pdf'' (Some ''Invoice'') mid_june) = None \<and>
   files (snd (move_file_to_correct_directory default_config stuck_env inbox
          ''./incoming_documents/a.pdf'' (Some ''Invoice'') mid_june)) = files inbox \<and>
   last (log_records (snd (move_file_to_correct_directory default_config stuck_env inbox
          ''./incoming_documents/a.pdf'' (Some ''Invoice'') mid_june))) =
     (ERROR, ''Failed to move file %s: %s'',
      [ArgStr ''./incoming_documents/a.pdf'', ArgMoveError (MoveOSError PermissionError)]) \<and>
   process_loop default_config denied_env [''a.pdf'', ''b.pdf''] 0 inbox =
     process_loop default_config denied_env [''b.pdf''] 0
       (snd (move_file_to_correct_directory default_config denied_env
               (logger INFO ''Document %s classified as: %s''
                  [ArgStr ''a.pdf'', ArgStr ''Invoice'']
                  (inbox\<lparr>clf_calls := [(''invoice text'', CANDIDATE_LABELS)]\<rparr>))
               ''./incoming_documents/a.pdf'' (Some ''Invoice'') mid_june))"
proof -
  let ?made = "inbox\<lparr>dirs := [''.'', ''./sorted_documents'', ''./sorted_documents/Invoices'',
      ''./sorted_documents/Invoices/2024'', ''./sorted_documents/Invoices/2024/Month_6'',
      ''./sorted_documents/Invoices/2024/Month_6/Week_3'', ''./incoming_documents'']\<rparr>"
  let ?seen = "inbox\<lparr>clf_calls := [(''invoice text'', CANDIDATE_LABELS)]\<rparr>"
  have t: "target_directory default_config ''Invoice'' mid_june =
      ''./sorted_documents/Invoices/2024/Month_6/Week_3''"
    by code_simp
  have d: "os_makedirs denied_env inbox (target_directory default_config ''Invoice'' mid_june) =
      Inl PermissionError"
    by code_simp
  have m: "os_makedirs stuck_env inbox (target_directory default_config ''Invoice'' mid_june) =
      Inr ?made"
    by code_simp
  have s: "shutil_move stuck_env ?made ''./incoming_documents/a.pdf''
      (unique_target ?made
         (os_path_join (target_directory default_config ''Invoice'' mid_june)
            [os_path_basename ''./incoming_documents/a.pdf''])) =
      Inl (MoveOSError PermissionError)"
    by code_simp
  have p: "os_path_join (INPUT_DIR default_config) [''a.pdf''] = ''./incoming_documents/a.pdf''"
    by code_simp
  have n: "now denied_env ''./incoming_documents/a.pdf'' = mid_june"
    by (simp add: denied_env_def quiet_env_def mid_june_def)
  have c: "classify_document denied_env inbox (os_path_join (INPUT_DIR default_config) [''a.pdf''])
      = (Some ''Invoice'', ?seen)"
    by code_simp
  have f: "fst (move_file_to_correct_directory default_config denied_env
           (logger INFO ''Document %s classified as: %s'' [ArgStr ''a.pdf'', ArgStr ''Invoice''] ?seen)
           (os_path_join (INPUT_DIR default_config) [''a.pdf'']) (Some ''Invoice'')
           (now denied_env (os_path_join (INPUT_DIR default_config) [''a.pdf'']))) = None"
    by code_simp
  have made: "files ?made = files inbox" by simp
  note rule = move_failure_is_logged_and_loop_continues
  from rule [where e = denied_env and w = inbox and cfg = default_config
              and label = "''Invoice''" and d = mid_june and err = PermissionError
              and file_path = "''./incoming_documents/a.pdf''"] d t
  have one: "move_file_to_correct_directory default_config denied_env inbox
     ''./incoming_documents/a.pdf'' (Some ''Invoice'') mid_june =
     (None, logger ERROR ''Failed to create directory %s: %s''
              [ArgStr ''./sorted_documents/Invoices/2024/Month_6/Week_3'',
               ArgOSError PermissionError] inbox)"
    by simp
  from rule [where e = stuck_env and w = inbox and cfg = default_config
              and label = "''Invoice''" and d = mid_june and ?w1.0 = ?made
              and file_path = "''./incoming_documents/a.pdf''"
              and merr = "MoveOSError PermissionError"] m s made
  have two: "fst (move_file_to_correct_directory default_config stuck_env inbox
          ''./incoming_documents/a.pdf'' (Some ''Invoice'') mid_june) = None \<and>
   files (snd (move_file_to_correct_directory default_config stuck_env inbox
          ''./incoming_documents/a.pdf'' (Some ''Invoice'') mid_june)) = files inbox \<and>
   last (log_records (snd (move_file_to_correct_directory default_config stuck_env inbox
          ''./incoming_documents/a.pdf'' (Some ''Invoice'') mid_june))) =
     (ERROR, ''Failed to move file %s: %s'',
      [ArgStr ''./incoming_documents/a.pdf'', ArgMoveError (MoveOSError PermissionError)])"
    by simp
  from rule [where e = denied_env and cfg = default_config and label = "''Invoice''"
              and ?w0.0 = inbox and file_name = "''a.pdf''" and w' = ?seen
              and rest = "[''b.pdf'']" and processed = 0] c f
  have three: "process_loop default_config denied_env [''a.pdf'', ''b.pdf''] 0 inbox =
     process_loop default_config denied_env [''b.pdf''] 0
       (snd (move_file_to_correct_directory default_config denied_env
               (logger INFO ''Document %s classified as: %s''
                  [ArgStr ''a.pdf'', ArgStr ''Invoice''] ?seen)
               ''./incoming_documents/a.pdf'' (Some ''Invoice'') mid_june))"
    by (simp only: p n)
  from one two three show ?thesis by simp
qed

text \<open>
  C7 as stated fails: the value returned on a failure carries neither the path nor the
  error. Two failures with different paths and different errors, and a skip, all return
  the same \<^verbatim>\<open>None\<close>.
\<close>

theorem move_failure_value_counterexample:
  "os_makedirs denied_env inbox (target_directory default_config ''Invoice'' mid_june) =
     Inl PermissionError \<and>
   os_makedirs full_env inbox (target_directory default_config ''Report'' mid_june) =
     Inl (OtherOSError 28) \<and>
   fst (move_file_to_correct_directory default_config denied_env inbox
          ''./incoming_documents/a.pdf'' (Some ''Invoice'') mid_june) = None \<and>
   fst (move_file_to_correct_directory default_config full_env inbox
          ''./incoming_documents/b.pdf'' (Some ''Report'') mid_june) = None \<and>
   fst (move_file_to_correct_directory default_config quiet_env inbox
          ''./incoming_documents/a.pdf'' None mid_june) = None"
  by code_simp





text \<open>Directory creation and the loops of the start-up.\<close>

lemma set_foldr_insert: "set (foldr List.insert xs ys) = set xs \<union> set ys"
  by (induction xs) auto

lemma os_makedirs_creates:
  assumes "os_makedirs e w p = Inr w'"
  shows "grows w w' \<and> p \<in> set (dirs w')"
  using assms
  by (auto simp: os_makedirs_def grows_def set_foldr_insert split: if_splits option.splits)

lemma os_makedirs_existing: "p \<noteq> [] \<Longrightarrow> p \<in> set (dirs w) \<Longrightarrow> os_makedirs e w p = Inr w"
  by (simp add: os_makedirs_def)

lemma os_makedirs_succeeds:
  assumes "p \<noteq> []" "mkdir_fault e p = None" "files w = []"
  shows "\<exists>w'. os_makedirs e w p = Inr w' \<and> files w' = []"
  using assms by (simp add: os_makedirs_def list_ex_iff)

lemma grows_refl: "grows w w"
  by (simp add: grows_def)

lemma grows_trans: "grows w w' \<Longrightarrow> grows w' w'' \<Longrightarrow> grows w w''"
  by (auto simp: grows_def)

lemma for_each_creates:
  assumes "\<And>x w w'. x \<in> set xs \<Longrightarrow> body x w = Inr w' \<Longrightarrow> grows w w' \<and> C x \<subseteq> set (dirs w')"
    and "for_each xs body w = Inr w'"
  shows "grows w w' \<and> (\<Union>x\<in>set xs. C x) \<subseteq> set (dirs w')"
  using assms
proof (induction xs arbitrary: w)
  case Nil
  then show ?case by (simp add: grows_refl)
next
  case (Cons x xs)
  from Cons.prems(2) obtain w1 where b: "body x w = Inr w1" and r: "for_each xs body w1 = Inr w'"
    by (auto split: sum.splits)
  from Cons.prems(1) [of x w w1] b have g1: "grows w w1" and c1: "C x \<subseteq> set (dirs w1)" by simp_all
  have "\<And>y a b. y \<in> set xs \<Longrightarrow> body y a = Inr b \<Longrightarrow> grows a b \<and> C y \<subseteq> set (dirs b)"
    using Cons.prems(1) by (meson list.set_intros(2))
  then have "grows w1 w' \<and> (\<Union>x\<in>set xs. C x) \<subseteq> set (dirs w')"
    using r by (rule Cons.IH)
  with g1 c1 show ?case by (auto simp: grows_def)
qed

lemma for_each_succeeds:
  assumes "\<And>x w. x \<in> set xs \<Longrightarrow> files w = [] \<Longrightarrow> \<exists>w'. body x w = Inr w' \<and> files w' = []"
    and "files w = []"
  shows "\<exists>w'. for_each xs body w = Inr w' \<and> files w' = []"
  using assms
proof (induction xs arbitrary: w)
  case Nil
  then show ?case by simp
next
  case (Cons x xs)
  from Cons.prems obtain w1 where b: "body x w = Inr w1" and f: "files w1 = []"
    by (meson list.set_intros(1))
  have "\<And>y a. y \<in> set xs \<Longrightarrow> files a = [] \<Longrightarrow> \<exists>b. body y a = Inr b \<and> files b = []"
    using Cons.prems(1) by (meson list.set_intros(2))
  then have "\<exists>w'. for_each xs body w1 = Inr w' \<and> files w' = []"
    using f by (rule Cons.IH)
  with b show ?case by simp
qed

lemma for_each_noop:
  assumes "\<And>x. x \<in> set xs \<Longrightarrow> body x w = Inr w"
  shows "for_each xs body w = Inr w"
  using assms by (induction xs) simp_all

lemma join_step_nonempty: "b \<noteq> [] \<Longrightarrow> join_step p b \<noteq> []"
  by (simp add: join_step_def)

lemma tree_path_nonempty: "tree_path cfg doc_type yr mth week \<noteq> []"
  by (simp add: tree_path_def os_path_join_def join_step_nonempty)

text \<open>The nested loops of \<open>setup_directory_structure\<close>.\<close>

lemma tree_loops_create:
  assumes "for_each DOCUMENT_TYPES (\<lambda>doc_type.
             for_each [2020..2030] (\<lambda>yr.
               for_each [1..12] (\<lambda>mth.
                 for_each [1..5] (\<lambda>week w'.
                   os_makedirs e w' (tree_path cfg doc_type yr mth week))))) w = Inr w1"
  shows "grows w w1 \<and>
         (\<Union>doc_type\<in>set DOCUMENT_TYPES. \<Union>yr\<in>set [2020..2030]. \<Union>mth\<in>set [1..12].
            \<Union>week\<in>set [1..5]. {tree_path cfg doc_type yr mth week}) \<subseteq> set (dirs w1)"
proof -
  have weeks: "grows a b \<and> (\<Union>week\<in>set [1..5]. {tree_path cfg t y m week}) \<subseteq> set (dirs b)"
    if "for_each [1..5] (\<lambda>week w'. os_makedirs e w' (tree_path cfg t y m week)) a = Inr b"
    for t y m a b
    using that by (rule for_each_creates [rotated]) (simp add: os_makedirs_creates)
  have months: "grows a b \<and>
      (\<Union>mth\<in>set [1..12]. \<Union>week\<in>set [1..5]. {tree_path cfg t y mth week}) \<subseteq> set (dirs b)"
    if "for_each [1..12] (\<lambda>mth.
          for_each [1..5] (\<lambda>week w'. os_makedirs e w' (tree_path cfg t y mth week))) a = Inr b"
    for t y a b
    using that by (rule for_each_creates [rotated]) (rule weeks)
  have years: "grows a b \<and>
      (\<Union>yr\<in>set [2020..2030]. \<Union>mth\<in>set [1..12]. \<Union>week\<in>set [1..5].
         {tree_path cfg t yr mth week}) \<subseteq> set (dirs b)"
    if "for_each [2020..2030] (\<lambda>yr. for_each [1..12] (\<lambda>mth.
          for_each [1..5] (\<lambda>week w'. os_makedirs e w' (tree_path cfg t yr mth week)))) a = Inr b"
    for t a b
    using that by (rule for_each_creates [rotated]) (rule months)
  show ?thesis
    using assms by (rule for_each_creates [rotated]) (rule years)
qed

declare upto_rec_numeral [simp del]

lemma tree_loops_succeed:
  assumes "\<And>p. mkdir_fault e p = None" and "files w = []"
  shows "\<exists>w1. for_each DOCUMENT_TYPES (\<lambda>doc_type.
             for_each [2020..2030] (\<lambda>yr.
               for_each [1..12] (\<lambda>mth.
                 for_each [1..5] (\<lambda>week w'.
                   os_makedirs e w' (tree_path cfg doc_type yr mth week))))) w = Inr w1 \<and>
              files w1 = []"
  using assms(2)
  by (intro for_each_succeeds os_makedirs_succeeds tree_path_nonempty assms(1))

lemma tree_loops_noop:
  assumes "\<And>t y m k. t \<in> set DOCUMENT_TYPES \<Longrightarrow> y \<in> set [2020..2030] \<Longrightarrow> m \<in> set [1..12] \<Longrightarrow>
             k \<in> set [1..5] \<Longrightarrow> tree_path cfg t y m k \<in> set (dirs w)"
  shows "for_each DOCUMENT_TYPES (\<lambda>doc_type.
             for_each [2020..2030] (\<lambda>yr.
               for_each [1..12] (\<lambda>mth.
                 for_each [1..5] (\<lambda>week w'.
                   os_makedirs e w' (tree_path cfg doc_type yr mth week))))) w = Inr w"
  by (intro for_each_noop os_makedirs_existing tree_path_nonempty assms)

lemma tree_loops_create_mem:
  assumes "for_each DOCUMENT_TYPES (\<lambda>doc_type.
             for_each [2020..2030] (\<lambda>yr.
               for_each [1..12] (\<lambda>mth.
                 for_each [1..5] (\<lambda>week w'.
                   os_makedirs e w' (tree_path cfg doc_type yr mth week))))) w = Inr w1"
    and "t \<in> set DOCUMENT_TYPES" "2020 \<le> y" "y \<le> 2030" "1 \<le> m" "m \<le> 12" "1 \<le> k" "k \<le> 5"
  shows "tree_path cfg t y m k \<in> set (dirs w1)"
proof -
  have y: "y \<in> set [2020..2030]" and m: "m \<in> set [1..12]" and k: "k \<in> set [1..5]"
    using assms(3-8) by simp_all
  have sub: "(\<Union>doc_type\<in>set DOCUMENT_TYPES. \<Union>yr\<in>set [2020..2030]. \<Union>mth\<in>set [1..12].
            \<Union>week\<in>set [1..5]. {tree_path cfg doc_type yr mth week}) \<subseteq> set (dirs w1)"
    using tree_loops_create [OF assms(1)] by (rule conjunct2)
  have "tree_path cfg t y m k \<in>
        (\<Union>doc_type\<in>set DOCUMENT_TYPES. \<Union>yr\<in>set [2020..2030]. \<Union>mth\<in>set [1..12].
            \<Union>week\<in>set [1..5]. {tree_path cfg doc_type yr mth week})"
    using assms(2) y m k by blast
  with sub show ?thesis by (rule subsetD)
qed

lemma setup_cases:
  assumes "setup_directory_structure cfg e w = Inr w'"
  shows "\<exists>w1 w2. for_each DOCUMENT_TYPES (\<lambda>doc_type.
             for_each [2020..2030] (\<lambda>yr.
               for_each [1..12] (\<lambda>mth.
                 for_each [1..5] (\<lambda>week w'.
                   os_makedirs e w' (tree_path cfg doc_type yr mth week))))) w = Inr w1 \<and>
           os_makedirs e w1 (INPUT_DIR cfg) = Inr w2 \<and>
           w' = logger INFO ''Directory structure initialized'' [] w2"
  using assms unfolding setup_directory_structure_def
  by (simp split: sum.splits)

text \<open>
  C9. When \<open>setup_directory_structure\<close> returns, the directory
  \<open><output_root>/Type/Year/Month_M/Week_W\<close> exists for every type directory in
  \<open>Invoices\<close>, \<open>Protocols\<close>, \<open>Reports\<close>, every year from 2020 to 2030, every month from
  1 to 12 and every week from 1 to 5, as does the input directory; nothing that existed
  is removed. It returns whenever no directory creation is refused, and it creates if
  missing: on a world that already has the whole tree it succeeds and changes nothing
  but the log.
\<close>

theorem setup_directory_structure_creates_tree:
  "(setup_directory_structure cfg e w = Inr w' \<and>
    doc_type \<in> {''Invoices'', ''Protocols'', ''Reports''} \<and>
    2020 \<le> yr \<and> yr \<le> 2030 \<and> 1 \<le> mth \<and> mth \<le> 12 \<and> 1 \<le> week \<and> week \<le> 5 \<longrightarrow>
      tree_path cfg doc_type yr mth week \<in> set (dirs w') \<and> INPUT_DIR cfg \<in> set (dirs w') \<and>
      set (dirs w) \<subseteq> set (dirs w') \<and> files w' = files w) \<and>
   (OUTPUT_DIR cfg \<noteq> [] \<and> \<not> endswith (OUTPUT_DIR cfg) ''/'' \<and>
    doc_type \<in> {''Invoices'', ''Protocols'', ''Reports''} \<longrightarrow>
      tree_path cfg doc_type yr mth week =
        OUTPUT_DIR cfg @ ''/'' @ doc_type @ ''/'' @ str_int yr @ ''/Month_'' @ str_int mth @
        ''/Week_'' @ str_int week) \<and>
   ((\<forall>p. mkdir_fault e p = None) \<and> files w = [] \<and> INPUT_DIR cfg \<noteq> [] \<longrightarrow>
      (\<exists>w''. setup_directory_structure cfg e w = Inr w'')) \<and>
   ((\<forall>t y m k. t \<in> {''Invoices'', ''Protocols'', ''Reports''} \<and> 2020 \<le> y \<and> y \<le> 2030 \<and>
        1 \<le> m \<and> m \<le> 12 \<and> 1 \<le> k \<and> k \<le> 5 \<longrightarrow> tree_path cfg t y m k \<in> set (dirs w)) \<and>
    INPUT_DIR cfg \<in> set (dirs w) \<and> INPUT_DIR cfg \<noteq> [] \<longrightarrow>
      setup_directory_structure cfg e w =
        Inr (logger INFO ''Directory structure initialized'' [] w))"
proof -
  let ?loops = "for_each DOCUMENT_TYPES (\<lambda>doc_type.
             for_each [2020..2030] (\<lambda>yr.
               for_each [1..12] (\<lambda>mth.
                 for_each [1..5] (\<lambda>week w'.
                   os_makedirs e w' (tree_path cfg doc_type yr mth week)))))"
  have types: "set DOCUMENT_TYPES = {''Invoices'', ''Protocols'', ''Reports''}"
    by (simp add: DOCUMENT_TYPES_def)
  have created: "setup_directory_structure cfg e w = Inr w' \<and>
    doc_type \<in> {''Invoices'', ''Protocols'', ''Reports''} \<and>
    2020 \<le> yr \<and> yr \<le> 2030 \<and> 1 \<le> mth \<and> mth \<le> 12 \<and> 1 \<le> week \<and> week \<le> 5 \<longrightarrow>
      tree_path cfg doc_type yr mth week \<in> set (dirs w') \<and> INPUT_DIR cfg \<in> set (dirs w') \<and>
      set (dirs w) \<subseteq> set (dirs w') \<and> files w' = files w"
  proof (intro impI, elim conjE)
    assume run: "setup_directory_structure cfg e w = Inr w'"
      and t: "doc_type \<in> {''Invoices'', ''Protocols'', ''Reports''}"
      and r: "2020 \<le> yr" "yr \<le> 2030" "1 \<le> mth" "mth \<le> 12" "1 \<le> week" "week \<le> 5"
    from setup_cases [OF run] obtain w1 w2 where l: "?loops w = Inr w1"
      and i: "os_makedirs e w1 (INPUT_DIR cfg) = Inr w2"
      and f: "w' = logger INFO ''Directory structure initialized'' [] w2"
      by blast
    from tree_loops_create [OF l] have g1: "grows w w1" by (rule conjunct1)
    from t types have "doc_type \<in> set DOCUMENT_TYPES" by simp
    with l r have in1: "tree_path cfg doc_type yr mth week \<in> set (dirs w1)"
      by (intro tree_loops_create_mem)
    from os_makedirs_creates [OF i] have g2: "grows w1 w2" by (rule conjunct1)
    from g1 g2 have g: "grows w w2" by (rule grows_trans)
    from in1 g2 have "tree_path cfg doc_type yr mth week \<in> set (dirs w2)"
      unfolding grows_def by blast
    moreover from os_makedirs_creates [OF i] have "INPUT_DIR cfg \<in> set (dirs w2)"
      by (rule conjunct2)
    ultimately show "tree_path cfg doc_type yr mth week \<in> set (dirs w') \<and> INPUT_DIR cfg \<in> set (dirs w') \<and>
      set (dirs w) \<subseteq> set (dirs w') \<and> files w' = files w"
      using g f by (simp add: grows_def)
  qed
  have layout: "OUTPUT_DIR cfg \<noteq> [] \<and> \<not> endswith (OUTPUT_DIR cfg) ''/'' \<and>
    doc_type \<in> {''Invoices'', ''Protocols'', ''Reports''} \<longrightarrow>
      tree_path cfg doc_type yr mth week =
        OUTPUT_DIR cfg @ ''/'' @ doc_type @ ''/'' @ str_int yr @ ''/Month_'' @ str_int mth @
        ''/Week_'' @ str_int week"
  proof (intro impI, elim conjE)
    assume root: "OUTPUT_DIR cfg \<noteq> []" "\<not> endswith (OUTPUT_DIR cfg) ''/''"
      and t: "doc_type \<in> {''Invoices'', ''Protocols'', ''Reports''}"
    from t have d: "doc_type \<noteq> []" "hd doc_type \<noteq> CHR ''/''" "last doc_type \<noteq> CHR ''/''"
      by auto
    have s1: "join_step (OUTPUT_DIR cfg) doc_type = OUTPUT_DIR cfg @ ''/'' @ doc_type"
      using root d by (simp add: join_step_plain endswith_sep)
    have s2: "join_step (OUTPUT_DIR cfg @ ''/'' @ doc_type) (str_int yr) =
        OUTPUT_DIR cfg @ ''/'' @ doc_type @ ''/'' @ str_int yr"
      using join_step_plain [of "OUTPUT_DIR cfg @ ''/'' @ doc_type" "str_int yr"] d
      by (simp add: str_int_ends)
    have s3: "join_step (OUTPUT_DIR cfg @ ''/'' @ doc_type @ ''/'' @ str_int yr)
          (''Month_'' @ str_int mth) =
        OUTPUT_DIR cfg @ ''/'' @ doc_type @ ''/'' @ str_int yr @ ''/'' @ ''Month_'' @ str_int mth"
      using join_step_plain [of "OUTPUT_DIR cfg @ ''/'' @ doc_type @ ''/'' @ str_int yr"
          "''Month_'' @ str_int mth"]
      by (simp add: str_int_ends str_int_nonempty)
    have s4: "join_step
          (OUTPUT_DIR cfg @ ''/'' @ doc_type @ ''/'' @ str_int yr @ ''/'' @ ''Month_'' @ str_int mth)
          (''Week_'' @ str_int week) =
        OUTPUT_DIR cfg @ ''/'' @ doc_type @ ''/'' @ str_int yr @ ''/'' @ ''Month_'' @ str_int mth
          @ ''/'' @ ''Week_'' @ str_int week"
      using join_step_plain [of
          "OUTPUT_DIR cfg @ ''/'' @ doc_type @ ''/'' @ str_int yr @ ''/'' @ ''Month_'' @ str_int mth"
          "''Week_'' @ str_int week"]
      by (simp add: str_int_ends str_int_nonempty)
    show "tree_path cfg doc_type yr mth week =
        OUTPUT_DIR cfg @ ''/'' @ doc_type @ ''/'' @ str_int yr @ ''/Month_'' @ str_int mth @
        ''/Week_'' @ str_int week"
      unfolding tree_path_def os_path_join_def
      by (simp only: foldl.simps s1 s2 s3 s4) simp
  qed
  have total: "(\<forall>p. mkdir_fault e p = None) \<and> files w = [] \<and> INPUT_DIR cfg \<noteq> [] \<longrightarrow>
      (\<exists>w''. setup_directory_structure cfg e w = Inr w'')"
  proof (intro impI, elim conjE)
    assume nf: "\<forall>p. mkdir_fault e p = None" and fw: "files w = []" and i: "INPUT_DIR cfg \<noteq> []"
    from nf fw obtain w1 where l: "?loops w = Inr w1" and f1: "files w1 = []"
      using tree_loops_succeed [of e w cfg] by auto
    from i nf f1 obtain w2 where "os_makedirs e w1 (INPUT_DIR cfg) = Inr w2"
      using os_makedirs_succeeds [of "INPUT_DIR cfg" e w1] by auto
    with l show "\<exists>w''. setup_directory_structure cfg e w = Inr w''"
      by (simp add: setup_directory_structure_def)
  qed
  have again: "(\<forall>t y m k. t \<in> {''Invoices'', ''Protocols'', ''Reports''} \<and> 2020 \<le> y \<and> y \<le> 2030 \<and>
        1 \<le> m \<and> m \<le> 12 \<and> 1 \<le> k \<and> k \<le> 5 \<longrightarrow> tree_path cfg t y m k \<in> set (dirs w)) \<and>
    INPUT_DIR cfg \<in> set (dirs w) \<and> INPUT_DIR cfg \<noteq> [] \<longrightarrow>
      setup_directory_structure cfg e w =
        Inr (logger INFO ''Directory structure initialized'' [] w)"
  proof (intro impI, elim conjE)
    assume tree: "\<forall>t y m k. t \<in> {''Invoices'', ''Protocols'', ''Reports''} \<and> 2020 \<le> y \<and> y \<le> 2030 \<and>
        1 \<le> m \<and> m \<le> 12 \<and> 1 \<le> k \<and> k \<le> 5 \<longrightarrow> tree_path cfg t y m k \<in> set (dirs w)"
      and i: "INPUT_DIR cfg \<in> set (dirs w)" "INPUT_DIR cfg \<noteq> []"
    have "?loops w = Inr w"
      by (rule tree_loops_noop) (use tree types in auto)
    moreover have "os_makedirs e w (INPUT_DIR cfg) = Inr w"
      using i by (simp add: os_makedirs_existing)
    ultimately show "setup_directory_structure cfg e w =
        Inr (logger INFO ''Directory structure initialized'' [] w)"
      by (simp add: setup_directory_structure_def)
  qed
  from created layout total again show ?thesis by blast
qed

theorem setup_directory_structure_creates_tree_witness:
  "\<exists>w'. setup_directory_structure default_config quiet_env (world_of [] []) = Inr w' \<and>
        ''./sorted_documents/Reports/2030/Month_12/Week_5'' \<in> set (dirs w') \<and>
        ''./incoming_documents'' \<in> set (dirs w') \<and>
        setup_directory_structure default_config quiet_env w' =
          Inr (logger INFO ''Directory structure initialized'' [] w')"
proof -
  note rule = setup_directory_structure_creates_tree
  have quiet: "\<forall>p. mkdir_fault quiet_env p = None" by (simp add: quiet_env_def)
  have empty: "files (world_of [] []) = []" by (simp add: world_of_def)
  have dirs: "INPUT_DIR default_config = ''./incoming_documents''"
    "INPUT_DIR default_config \<noteq> []" "OUTPUT_DIR default_config \<noteq> []"
    "\<not> endswith (OUTPUT_DIR default_config) ''/''"
    by (simp_all add: default_config_def endswith_def)
  from rule [where e = quiet_env and w = "world_of [] []" and cfg = default_config,
      THEN conjunct2, THEN conjunct2, THEN conjunct1] quiet empty dirs
  obtain w' where run: "setup_directory_structure default_config quiet_env (world_of [] []) = Inr w'"
    by blast
  have tree: "tree_path default_config t y m k \<in> set (dirs w') \<and>
      INPUT_DIR default_config \<in> set (dirs w')"
    if "t \<in> {''Invoices'', ''Protocols'', ''Reports''} \<and> 2020 \<le> y \<and> y \<le> 2030 \<and>
        1 \<le> m \<and> m \<le> 12 \<and> 1 \<le> k \<and> k \<le> 5" for t y m k
    using rule [where e = quiet_env and w = "world_of [] []" and cfg = default_config
        and w' = w' and doc_type = t and yr = y and mth = m and week = k, THEN conjunct1] run that
    by blast
  have path: "tree_path default_config ''Reports'' 2030 12 5 =
      OUTPUT_DIR default_config @ ''/'' @ ''Reports'' @ ''/'' @ str_int 2030 @ ''/Month_'' @
      str_int 12 @ ''/Week_'' @ str_int 5"
    using rule [where cfg = default_config and doc_type = "''Reports''" and yr = 2030
        and mth = 12 and week = 5, THEN conjunct2, THEN conjunct1] dirs
    by simp
  have lit: "OUTPUT_DIR default_config @ ''/'' @ ''Reports'' @ ''/'' @ str_int 2030 @ ''/Month_'' @
      str_int 12 @ ''/Week_'' @ str_int 5 = ''./sorted_documents/Reports/2030/Month_12/Week_5''"
    by code_simp
  have "tree_path default_config ''Reports'' 2030 12 5 \<in> set (dirs w') \<and>
      INPUT_DIR default_config \<in> set (dirs w')"
    by (rule tree) simp
  with path lit dirs(1)
  have one: "''./sorted_documents/Reports/2030/Month_12/Week_5'' \<in> set (dirs w')"
    and inp: "''./incoming_documents'' \<in> set (dirs w')"
    by simp_all
  have all: "\<forall>t y m k. t \<in> {''Invoices'', ''Protocols'', ''Reports''} \<and> 2020 \<le> y \<and> y \<le> 2030 \<and>
        1 \<le> m \<and> m \<le> 12 \<and> 1 \<le> k \<and> k \<le> 5 \<longrightarrow> tree_path default_config t y m k \<in> set (dirs w')"
    using tree by blast
  have "INPUT_DIR default_config \<in> set (dirs w') \<and> INPUT_DIR default_config \<noteq> []"
    using inp dirs(1) by simp
  with all have again: "setup_directory_structure default_config quiet_env w' =
      Inr (logger INFO ''Directory structure initialized'' [] w')"
    by (intro rule [where e = quiet_env and w = w' and cfg = default_config,
          THEN conjunct2, THEN conjunct2, THEN conjunct2, THEN mp] conjI) simp_all
  from run one inp again show ?thesis by blast
qed

end
